theory Spec2Isabelle
  imports Complex_Main "HOL-Library.Word"
begin

section \<open>Bytes and the Python operations the decoder uses\<close>

type_synonym byte = "8 word"

text \<open>Exceptions the modelled code can raise or receive, by their Python class.\<close>

datatype exn =
    KeyboardInterrupt
  | SystemExit
  | IndexError
  | OSError
  | struct_error
  | bluez_error
  | RuntimeError
  | OpenFailed exn

text \<open>
  \<open>except Exception\<close> catches every class of the list but \<open>KeyboardInterrupt\<close> and
  \<open>SystemExit\<close>, which derive from \<open>BaseException\<close> only.
\<close>

fun is_Exception :: "exn \<Rightarrow> bool" where
  "is_Exception KeyboardInterrupt = False"
| "is_Exception SystemExit = False"
| "is_Exception _ = True"

text \<open>
  \<open>b[i]\<close> on a bytes object: a negative index counts from the end, an index out of range
  raises \<open>IndexError\<close>, and the byte is returned as an integer between 0 and 255.
\<close>

definition getitem :: "byte list \<Rightarrow> int \<Rightarrow> exn + int" where
  "getitem b i =
     (let n = int (length b); j = (if i < 0 then n + i else i)
      in if 0 \<le> j \<and> j < n then Inr (uint (b ! nat j)) else Inl IndexError)"

text \<open>
  \<open>b[lo:hi]\<close> and \<open>b[lo:]\<close>: a slice never raises; a negative bound counts from the end
  and every bound is clipped to the object's length.
\<close>

definition clip :: "nat \<Rightarrow> int \<Rightarrow> nat" where
  "clip n i = (if i < 0 then nat (max (int n + i) 0) else min (nat i) n)"

definition slice_bytes :: "'a list \<Rightarrow> int \<Rightarrow> int \<Rightarrow> 'a list" where
  "slice_bytes b lo hi = drop (clip (length b) lo) (take (clip (length b) hi) b)"

definition slice_from :: "'a list \<Rightarrow> int \<Rightarrow> 'a list" where
  "slice_from b lo = drop (clip (length b) lo) b"

text \<open>
  \<open>b.find(sub)\<close>: the lowest index at which \<open>sub\<close> occurs in \<open>b\<close>, or \<open>-1\<close>.
\<close>

fun find_aux :: "byte list \<Rightarrow> byte list \<Rightarrow> nat \<Rightarrow> int" where
  "find_aux sub [] i = (if sub = [] then int i else -1)"
| "find_aux sub (x # xs) i =
     (if take (length sub) (x # xs) = sub then int i else find_aux sub xs (Suc i))"

definition find_bytes :: "byte list \<Rightarrow> byte list \<Rightarrow> int" where
  "find_bytes b sub = find_aux sub b 0"

text \<open>
  \<open>int.from_bytes(b, byteorder, signed)\<close>: the bytes as one base-256 number, most
  significant byte first (\<open>Big\<close>, the default of Python 3.11 and later) or last
  (\<open>Little\<close>); a signed reading subtracts \<open>256 ^ len(b)\<close> from a value whose top bit is set.
\<close>

datatype byteorder = Big | Little

fun from_big :: "byte list \<Rightarrow> int \<Rightarrow> int" where
  "from_big [] acc = acc"
| "from_big (x # xs) acc = from_big xs (acc * 256 + uint x)"

definition from_bytes :: "byte list \<Rightarrow> byteorder \<Rightarrow> bool \<Rightarrow> int" where
  "from_bytes b order is_signed =
     (let u = from_big (case order of Big \<Rightarrow> b | Little \<Rightarrow> rev b) 0;
          n = length b
      in if is_signed \<and> n > 0 \<and> u \<ge> 2 ^ (8 * n - 1) then u - 2 ^ (8 * n) else u)"

section \<open>mith.py: the sensor decoder\<close>

datatype DeviceType = ATC1441 | PVVX

type_synonym datetime = int

text \<open>
  The floating-point fields hold the quotient of an integer by 10 or 100; the model
  keeps the quotient as a rational number and does not round it to a double.
\<close>

record Measurement =
  device_type :: DeviceType
  adv_number :: int
  adv_missed :: int
  timestamp :: datetime
  temperature :: rat
  humidity :: rat
  battery_voltage :: int
  battery_percentage :: int
  sensor_name :: string

text \<open>The lines the program prints, by the call that prints them.\<close>

datatype line =
    Unknown_packet string "byte list"
  | Unknown_device_type string int
  | Unchanged string int
  | Report Measurement int "rat option" "int option"

text \<open>
  The class attributes \<open>_adv_counter\<close> and \<open>_latest_measurement_time\<close>, with the
  standard output the log functions append to.
\<close>

record MiTH =
  adv_counter :: "string \<rightharpoonup> int"
  latest_measurement_time :: "string \<rightharpoonup> rat"
  stdout :: "line list"

definition VERBOSE :: bool where
  "VERBOSE = False"

definition DEBUG :: bool where
  "DEBUG = False"

definition log_line :: "line \<Rightarrow> MiTH \<Rightarrow> MiTH" where
  "log_line msg self = self\<lparr>stdout := stdout self @ [msg]\<rparr>"

definition vlog :: "line \<Rightarrow> MiTH \<Rightarrow> MiTH" where
  "vlog msg self = (if VERBOSE then log_line msg self else self)"

definition dlog :: "line \<Rightarrow> MiTH \<Rightarrow> MiTH" where
  "dlog msg self = (if DEBUG then log_line msg self else self)"

definition preamble :: "byte list" where
  "preamble = [0x16, 0x1a, 0x18]"

text \<open>
  \<open>MiTH.decode_data_atc\<close>. The wall-clock time \<open>datetime.now()\<close> is the parameter
  \<open>now\<close>. The result is what the call returns (\<open>Inr None\<close> for a bare \<open>return\<close>,
  \<open>Inl\<close> for an exception) and the object as the call leaves it.
\<close>

definition decode_data_atc ::
  "datetime \<Rightarrow> MiTH \<Rightarrow> string \<Rightarrow> byte list \<Rightarrow> (exn + Measurement option) \<times> MiTH" where
  "decode_data_atc now self mac packet =
     (let packet_start = find_bytes packet preamble in
      if packet_start = -1 then (Inr None, dlog (Unknown_packet mac packet) self)
      else
        let offset = packet_start + int (length preamble);
            data = slice_from packet offset;
            data_len = int (length data)
        in case (if data_len = 13 then Some (ATC1441, -1)
                 else if data_len = 15 then Some (PVVX, -2)
                 else None) of
             None \<Rightarrow> (Inr None, dlog (Unknown_device_type mac data_len) self)
           | Some (device_type', adv_number_offset) \<Rightarrow>
        (case getitem data adv_number_offset of
           Inl e \<Rightarrow> (Inl e, self)
         | Inr adv_number' \<Rightarrow>
        let adv_number_prev = adv_counter self mac in
        if Some adv_number' = adv_number_prev then (Inr None, vlog (Unchanged mac adv_number') self)
        else
          let adv_missed' = (case adv_number_prev of
                              None \<Rightarrow> 0
                            | Some p \<Rightarrow> if p \<noteq> 0 then adv_number' - p - 1 else 0);
              self = self\<lparr>adv_counter := (adv_counter self)(mac \<mapsto> adv_number')\<rparr>
          in case device_type' of
               ATC1441 \<Rightarrow>
                 (let temperature' = rat_of_int (from_bytes (slice_bytes data 6 8) Big True) / 10 in
                  case getitem data 8 of
                    Inl e \<Rightarrow> (Inl e, self)
                  | Inr humidity' \<Rightarrow>
                  (case getitem data 9 of
                     Inl e \<Rightarrow> (Inl e, self)
                   | Inr battery_percentage' \<Rightarrow>
                   let battery_voltage' = from_bytes (slice_bytes data 10 12) Big False in
                   (Inr (Some \<lparr>device_type = device_type', adv_number = adv_number',
                               adv_missed = adv_missed', timestamp = now,
                               temperature = temperature', humidity = rat_of_int humidity',
                               battery_voltage = battery_voltage',
                               battery_percentage = battery_percentage',
                               sensor_name = ''''\<rparr>), self)))
             | PVVX \<Rightarrow>
                 (let temperature' = rat_of_int (from_bytes (slice_bytes data 6 8) Little True) / 100;
                      humidity' = rat_of_int (from_bytes (slice_bytes data 8 10) Little False) / 100;
                      battery_voltage' = from_bytes (slice_bytes data 10 12) Little False
                  in case getitem data 12 of
                       Inl e \<Rightarrow> (Inl e, self)
                     | Inr battery_percentage' \<Rightarrow>
                     (Inr (Some \<lparr>device_type = device_type', adv_number = adv_number',
                                 adv_missed = adv_missed', timestamp = now,
                                 temperature = temperature', humidity = humidity',
                                 battery_voltage = battery_voltage',
                                 battery_percentage = battery_percentage',
                                 sensor_name = ''''\<rparr>), self))))"

text \<open>
  The configured names: the dictionary literal gives one key twice, so the later value
  is the one the dictionary holds.
\<close>

definition sensors :: "string \<rightharpoonup> string" where
  "sensors = [''A4:C1:38:xx:xx:xx'' \<mapsto> ''living room'', ''A4:C1:38:xx:xx:xx'' \<mapsto> ''kitchen'']"

text \<open>
  \<open>re.match('A4:C1:38:(..):(..):(..)', mac)\<close>: the pattern is anchored at the start
  only, and a dot matches every character but a newline. The result is the three groups.
\<close>

definition re_match :: "string \<Rightarrow> (string \<times> string \<times> string) option" where
  "re_match mac =
     (if 17 \<le> length mac \<and> take 9 mac = ''A4:C1:38:''
         \<and> mac ! 11 = CHR '':'' \<and> mac ! 14 = CHR '':''
         \<and> (\<forall>i \<in> set [9, 10, 12, 13, 15, 16]. mac ! i \<noteq> CHR 0x0A)
      then Some (take 2 (drop 9 mac), take 2 (drop 12 mac), take 2 (drop 15 mac))
      else None)"

definition sensor_name_of :: "string \<Rightarrow> string" where
  "sensor_name_of mac =
     (case sensors mac of
        Some name \<Rightarrow> if name \<noteq> [] then name
                     else (case re_match mac of Some (a, b, c) \<Rightarrow> a @ b @ c | None \<Rightarrow> mac)
      | None \<Rightarrow> (case re_match mac of Some (a, b, c) \<Rightarrow> a @ b @ c | None \<Rightarrow> mac))"

text \<open>
  \<open>MiTH.le_advertise_packet_handler\<close>. \<open>perf\<close> is the value of \<open>time.perf_counter()\<close>
  and \<open>now\<close> the value of \<open>datetime.now()\<close> at the call. The result is the exception
  the call raises, if any, and the object as the call leaves it.
\<close>

definition le_advertise_packet_handler ::
  "rat \<Rightarrow> datetime \<Rightarrow> MiTH \<Rightarrow> string \<Rightarrow> int \<Rightarrow> byte list \<Rightarrow> int \<Rightarrow> exn option \<times> MiTH" where
  "le_advertise_packet_handler perf now self mac adv_type data rssi =
     (case decode_data_atc now self mac data of
        (Inl e, self) \<Rightarrow> (Some e, self)
      | (Inr None, self) \<Rightarrow> (None, self)
      | (Inr (Some measurement), self) \<Rightarrow>
          let measurement = measurement\<lparr>sensor_name := sensor_name_of mac\<rparr>;
              previous = latest_measurement_time self mac;
              elapsed = (case previous of
                           None \<Rightarrow> None
                         | Some p \<Rightarrow> if p \<noteq> 0 then Some (perf - p) else None);
              elapsed_str = (case elapsed of
                               None \<Rightarrow> None
                             | Some d \<Rightarrow> if d \<noteq> 0 then Some d else None);
              self = self\<lparr>latest_measurement_time := (latest_measurement_time self)(mac \<mapsto> perf)\<rparr>;
              missed = (if adv_missed measurement \<noteq> 0 then Some (adv_missed measurement) else None)
          in (None, log_line (Report measurement rssi elapsed_str missed) self))"

section \<open>btle.py: the radio session and the receive loop\<close>

definition LE_META_EVENT :: int where
  "LE_META_EVENT = 0x3E"

definition SCAN_TYPE_PASSIVE :: byte where
  "SCAN_TYPE_PASSIVE = 0x00"

definition LE_PUBLIC_ADDRESS :: byte where
  "LE_PUBLIC_ADDRESS = 0x00"

definition SCAN_FILTER_DUPLICATES :: byte where
  "SCAN_FILTER_DUPLICATES = 0x01"

definition SCAN_DISABLE :: byte where
  "SCAN_DISABLE = 0x00"

definition SCAN_ENABLE :: byte where
  "SCAN_ENABLE = 0x01"

definition FILTER_POLICY_NO_WHITELIST :: byte where
  "FILTER_POLICY_NO_WHITELIST = 0x00"

definition OGF_LE_CTL :: nat where
  "OGF_LE_CTL = 0x08"

definition OCF_LE_SET_SCAN_PARAMETERS :: nat where
  "OCF_LE_SET_SCAN_PARAMETERS = 0x000B"

definition OCF_LE_SET_SCAN_ENABLE :: nat where
  "OCF_LE_SET_SCAN_ENABLE = 0x000C"

definition EVT_LE_ADVERTISING_REPORT :: int where
  "EVT_LE_ADVERTISING_REPORT = 0x02"

definition EALREADY :: nat where
  "EALREADY = 114"

text \<open>
  \<open>struct.unpack\<close> with the formats the loop uses: the buffer must have exactly the
  format's size, or \<open>struct.error\<close> is raised. \<open>B\<close> reads an unsigned byte, \<open>b\<close> a
  signed one.
\<close>

definition unpack_BBB :: "byte list \<Rightarrow> exn + int \<times> int \<times> int" where
  "unpack_BBB b = (case b of [x, y, z] \<Rightarrow> Inr (uint x, uint y, uint z) | _ \<Rightarrow> Inl struct_error)"

definition unpack_B :: "byte list \<Rightarrow> exn + int" where
  "unpack_B b = (case b of [x] \<Rightarrow> Inr (uint x) | _ \<Rightarrow> Inl struct_error)"

definition unpack_b :: "byte list \<Rightarrow> exn + int" where
  "unpack_b b = (case b of [x] \<Rightarrow> Inr (sint x) | _ \<Rightarrow> Inl struct_error)"

text \<open>What one call of \<open>sock.recv(255)\<close> does: a frame arrives, the interrupt signal
  arrives while the call blocks, or the call fails.\<close>

datatype recv = Frame "byte list" | Interrupted | Failed

datatype notice =
    Handler_exception exn
  | Failed_setting_filter "byte list"

text \<open>
  The radio handle and what the process did to it: the kernel filter installed on the
  socket, the commands sent with \<open>hci_send_cmd\<close> (group, command, parameters), and the
  lines printed. \<open>faults\<close> decides the socket-option calls still to come, one entry for
  each \<open>getsockopt\<close> or \<open>setsockopt\<close> (\<open>True\<close>: the call raises \<open>bluez.error\<close>); when
  the list is used up the calls succeed.
\<close>

record radio =
  hci_filter :: "byte list"
  faults :: "bool list"
  sent :: "(nat \<times> nat \<times> byte list) list"
  printed :: "notice list"

definition next_fault :: "radio \<Rightarrow> bool \<times> radio" where
  "next_fault sock = (case faults sock of [] \<Rightarrow> (False, sock) | f # fs \<Rightarrow> (f, sock\<lparr>faults := fs\<rparr>))"

definition getsockopt :: "radio \<Rightarrow> (exn + byte list) \<times> radio" where
  "getsockopt sock =
     (case next_fault sock of
        (True, sock) \<Rightarrow> (Inl bluez_error, sock)
      | (False, sock) \<Rightarrow> (Inr (hci_filter sock), sock))"

definition setsockopt :: "byte list \<Rightarrow> radio \<Rightarrow> exn option \<times> radio" where
  "setsockopt flt sock =
     (case next_fault sock of
        (True, sock) \<Rightarrow> (Some bluez_error, sock)
      | (False, sock) \<Rightarrow> (None, sock\<lparr>hci_filter := flt\<rparr>))"

definition hci_send_cmd :: "nat \<Rightarrow> nat \<Rightarrow> byte list \<Rightarrow> radio \<Rightarrow> radio" where
  "hci_send_cmd ogf ocf cmd_pkt sock = sock\<lparr>sent := sent sock @ [(ogf, ocf, cmd_pkt)]\<rparr>"

text \<open>\<open>struct.pack("<H", v)\<close>: the two bytes of \<open>v\<close>, low byte first.\<close>

definition pack_H :: "nat \<Rightarrow> byte list" where
  "pack_H v = [of_nat (v mod 256), of_nat (v div 256 mod 256)]"

definition le_scan_enable :: "radio \<Rightarrow> radio" where
  "le_scan_enable sock =
     (let own_bdaddr_type = LE_PUBLIC_ADDRESS;
          interval = 0x0800;
          window = 0x0800;
          filter_policy = FILTER_POLICY_NO_WHITELIST;
          cmd_pkt = [SCAN_TYPE_PASSIVE] @ pack_H interval @ pack_H window
                    @ [own_bdaddr_type, filter_policy];
          sock = hci_send_cmd OGF_LE_CTL OCF_LE_SET_SCAN_PARAMETERS cmd_pkt sock;
          filter_duplicates = False;
          cmd_pkt = [SCAN_ENABLE, if filter_duplicates then SCAN_FILTER_DUPLICATES else 0x00]
      in hci_send_cmd OGF_LE_CTL OCF_LE_SET_SCAN_ENABLE cmd_pkt sock)"

definition le_scan_disable :: "radio \<Rightarrow> radio" where
  "le_scan_disable sock =
     (let cmd_pkt = [SCAN_DISABLE, 0x00]
      in hci_send_cmd OGF_LE_CTL OCF_LE_SET_SCAN_ENABLE cmd_pkt sock)"

text \<open>
  The library's \<open>ba2str\<close> on a six-byte address: the bytes in reverse order, each as two
  upper-case hexadecimal digits, with colons between them. The loop below takes the
  conversion as a parameter; this one serves the concrete runs.
\<close>

definition hex2 :: "byte \<Rightarrow> string" where
  "hex2 x = [''0123456789ABCDEF'' ! (unat x div 16), ''0123456789ABCDEF'' ! (unat x mod 16)]"

definition ba2str_hex :: "byte list \<Rightarrow> string" where
  "ba2str_hex ba =
     (case rev ba of
        [] \<Rightarrow> []
      | x # xs \<Rightarrow> hex2 x @ concat (map (\<lambda>y. CHR '':'' # hex2 y) xs))"

text \<open>
  The caller's handler: a bound method of an object with a state of its own; it gets the
  address, the advertisement type, the payload and the signal strength, and may raise.
\<close>

type_synonym 'h handler = "'h \<Rightarrow> string \<Rightarrow> int \<Rightarrow> byte list \<Rightarrow> int \<Rightarrow> exn option \<times> 'h"

text \<open>
  The \<open>while True\<close> loop of \<open>BtLe.parse_le_advertising_events\<close>, run on the outcomes of
  its successive \<open>recv\<close> calls. The loop has no exit but an exception: the result is the
  exception that leaves it, with the handler's state and the lines printed, or \<open>None\<close>
  when the loop is still receiving after the last listed outcome. \<open>ba2str\<close> is the
  library's conversion of an address to text.
\<close>

fun receive_loop ::
  "(byte list \<Rightarrow> string) \<Rightarrow> 'h handler \<Rightarrow> recv list \<Rightarrow> 'h \<Rightarrow> notice list
     \<Rightarrow> (exn \<times> 'h \<times> notice list) option" where
  "receive_loop ba2str handler [] h out = None"
| "receive_loop ba2str handler (Interrupted # rest) h out = Some (KeyboardInterrupt, h, out)"
| "receive_loop ba2str handler (Failed # rest) h out = Some (OSError, h, out)"
| "receive_loop ba2str handler (Frame full_pkt # rest) h out =
     (let pkt = full_pkt in
      case unpack_BBB (slice_bytes pkt 0 3) of
        Inl e \<Rightarrow> Some (e, h, out)
      | Inr (ptype, event, plen) \<Rightarrow>
      if event \<noteq> LE_META_EVENT then receive_loop ba2str handler rest h out
      else
      (case unpack_B (slice_bytes pkt 3 4) of
         Inl e \<Rightarrow> Some (e, h, out)
       | Inr sub_event \<Rightarrow>
       if sub_event \<noteq> EVT_LE_ADVERTISING_REPORT then receive_loop ba2str handler rest h out
       else
         let pkt = slice_from pkt 4 in
         (case unpack_b (slice_bytes pkt 1 2) of
            Inl e \<Rightarrow> Some (e, h, out)
          | Inr adv_type \<Rightarrow>
          let mac_addr_str = ba2str (slice_bytes pkt 3 9);
              data = slice_bytes pkt 9 (-1)
          in (case unpack_b (slice_bytes full_pkt (int (length full_pkt) - 1)
                                         (int (length full_pkt))) of
                Inl e \<Rightarrow> Some (e, h, out)
              | Inr rssi \<Rightarrow>
              (case handler h mac_addr_str adv_type data rssi of
                 (None, h) \<Rightarrow> receive_loop ba2str handler rest h out
               | (Some e, h) \<Rightarrow>
                   if is_Exception e
                   then receive_loop ba2str handler rest h (out @ [Handler_exception e])
                   else Some (e, h, out))))))"

text \<open>
  \<open>BtLe.parse_le_advertising_events\<close>. \<open>new_filter\<close> is the filter the library builds
  for HCI event packets of the LE meta event. The call never returns normally: the
  result is the exception it raises, with the handle and the handler's state.
\<close>

definition parse_le_advertising_events ::
  "(byte list \<Rightarrow> string) \<Rightarrow> byte list \<Rightarrow> recv list \<Rightarrow> radio \<Rightarrow> 'h handler \<Rightarrow> 'h
     \<Rightarrow> (exn \<times> radio \<times> 'h) option" where
  "parse_le_advertising_events ba2str new_filter incoming sock handler h =
     (case getsockopt sock of
        (Inl e, sock) \<Rightarrow> Some (e, sock, h)
      | (Inr old_filter, sock) \<Rightarrow>
      (case setsockopt new_filter sock of
         (Some e, sock) \<Rightarrow> Some (e, sock, h)
       | (None, sock) \<Rightarrow>
       (case receive_loop ba2str handler incoming h (printed sock) of
          None \<Rightarrow> None
        | Some (e, h, out) \<Rightarrow>
            let sock = sock\<lparr>printed := out\<rparr> in
            if e = KeyboardInterrupt then
              (case setsockopt old_filter sock of
                 (None, sock) \<Rightarrow> Some (e, sock, h)
               | (Some e', sock) \<Rightarrow>
                   Some (e, sock\<lparr>printed := printed sock @ [Failed_setting_filter old_filter]\<rparr>, h))
            else Some (e, sock, h))))"

text \<open>
  \<open>BtLe._toggle_device\<close> and \<open>BtLe.device_enable\<close>: \<open>ioctl_errno\<close> is the error number
  of the \<open>ioctl\<close> call when it fails.
\<close>

definition toggle_device :: "nat option \<Rightarrow> exn option" where
  "toggle_device ioctl_errno =
     (case ioctl_errno of
        None \<Rightarrow> None
      | Some errno \<Rightarrow> if errno \<noteq> EALREADY then Some OSError else None)"

definition device_enable :: "nat option \<Rightarrow> exn option" where
  "device_enable ioctl_errno = toggle_device ioctl_errno"

text \<open>
  \<open>BtLe.handle_le_advertising_events\<close>. \<open>opened\<close> is what \<open>hci_open_dev\<close> does: it
  returns the handle or raises. The result is \<open>Inr ()\<close> when the call returns and
  \<open>Inl\<close> the exception when it raises, with the handle (when one was opened) and the
  handler's state; \<open>None\<close> when the call is still receiving.
\<close>

definition handle_le_advertising_events ::
  "(byte list \<Rightarrow> string) \<Rightarrow> byte list \<Rightarrow> nat option \<Rightarrow> exn + radio \<Rightarrow> recv list
     \<Rightarrow> 'h handler \<Rightarrow> 'h \<Rightarrow> ((exn + unit) \<times> radio option \<times> 'h) option" where
  "handle_le_advertising_events ba2str new_filter ioctl_errno opened incoming handler h =
     (case device_enable ioctl_errno of
        Some e \<Rightarrow> Some (Inl e, None, h)
      | None \<Rightarrow>
      (case opened of
         Inl e \<Rightarrow> (if is_Exception e then Some (Inl (OpenFailed e), None, h)
                   else Some (Inl e, None, h))
       | Inr sock \<Rightarrow>
           let sock = le_scan_enable sock in
           (case parse_le_advertising_events ba2str new_filter incoming sock handler h of
              None \<Rightarrow> None
            | Some (e, sock, h) \<Rightarrow>
                if e = KeyboardInterrupt then Some (Inr (), Some (le_scan_disable sock), h)
                else Some (Inl e, Some sock, h))))"

section \<open>Facts about the byte operations\<close>

lemma find_aux_spec:
  "(find_aux sub xs i = -1 \<and> (\<forall>k. take (length sub) (drop k xs) \<noteq> sub))
   \<or> (\<exists>k. find_aux sub xs i = int (i + k) \<and> k + length sub \<le> length xs
          \<and> take (length sub) (drop k xs) = sub
          \<and> (\<forall>j<k. take (length sub) (drop j xs) \<noteq> sub))"
proof (induction xs arbitrary: i)
  case Nil
  then show ?case by auto
next
  case (Cons x xs)
  show ?case
  proof (cases "take (length sub) (x # xs) = sub")
    case True
    then have "length (take (length sub) (x # xs)) = length sub"
      by (rule arg_cong)
    then have "length sub \<le> length (x # xs)"
      unfolding length_take by arith
    with True show ?thesis
      by (intro disjI2 exI[of _ 0]) simp
  next
    case False
    from Cons.IH[of "Suc i"] show ?thesis
    proof
      assume a: "find_aux sub xs (Suc i) = - 1 \<and> (\<forall>k. take (length sub) (drop k xs) \<noteq> sub)"
      have "\<forall>k. take (length sub) (drop k (x # xs)) \<noteq> sub"
      proof
        fix k show "take (length sub) (drop k (x # xs)) \<noteq> sub"
          using a False by (cases k) auto
      qed
      with a False show ?thesis by simp
    next
      assume "\<exists>k. find_aux sub xs (Suc i) = int (Suc i + k) \<and> k + length sub \<le> length xs
          \<and> take (length sub) (drop k xs) = sub
          \<and> (\<forall>j<k. take (length sub) (drop j xs) \<noteq> sub)"
      then obtain k where k: "find_aux sub xs (Suc i) = int (Suc i + k)" "k + length sub \<le> length xs"
          "take (length sub) (drop k xs) = sub" "\<forall>j<k. take (length sub) (drop j xs) \<noteq> sub"
        by blast
      have "\<forall>j<Suc k. take (length sub) (drop j (x # xs)) \<noteq> sub"
      proof (intro allI impI)
        fix j assume "j < Suc k"
        then show "take (length sub) (drop j (x # xs)) \<noteq> sub"
          using k(4) False by (cases j) auto
      qed
      with k False show ?thesis
        by (intro disjI2 exI[of _ "Suc k"]) simp
    qed
  qed
qed

lemma occurs_iff:
  "(\<exists>a b. xs = a @ sub @ b) \<longleftrightarrow> (\<exists>k. take (length sub) (drop k xs) = sub)"
proof
  assume "\<exists>a b. xs = a @ sub @ b"
  then obtain a b where "xs = a @ sub @ b" by blast
  then have "take (length sub) (drop (length a) xs) = sub" by simp
  then show "\<exists>k. take (length sub) (drop k xs) = sub" ..
next
  assume "\<exists>k. take (length sub) (drop k xs) = sub"
  then obtain k where k: "take (length sub) (drop k xs) = sub" ..
  have "take (length sub) (drop k xs) @ drop (length sub) (drop k xs) = drop k xs"
    by (rule append_take_drop_id)
  then have "xs = take k xs @ take (length sub) (drop k xs) @ drop (length sub) (drop k xs)"
    by (simp only: append_take_drop_id)
  with k show "\<exists>a b. xs = a @ sub @ b" by metis
qed

lemma uint_cat16: "uint (word_cat a b :: 16 word) = uint (a::byte) * 256 + uint (b::byte)"
proof -
  have "uint a < 256" using uint_bounded[of a] by simp
  have "uint b < 256" using uint_bounded[of b] by simp
  have "0 \<le> uint a" "0 \<le> uint b" by simp_all
  have "uint (word_cat a b :: 16 word) = take_bit 16 (concat_bit 8 (uint b) (uint a))"
    by (simp add: word_cat_eq' uint_word_of_int_eq)
  also have "concat_bit 8 (uint b) (uint a) = uint b + 256 * uint a"
    by (simp add: concat_bit_eq push_bit_eq_mult take_bit_eq_mod \<open>uint b < 256\<close>)
  also have "take_bit 16 (uint b + 256 * uint a) = uint b + 256 * uint a"
    using \<open>uint a < 256\<close> \<open>uint b < 256\<close> by (simp add: take_bit_eq_mod)
  finally show ?thesis by simp
qed

lemma sint16_uint: "sint (w :: 16 word) = (if uint w \<ge> 2 ^ 15 then uint w - 2 ^ 16 else uint w)"
proof -
  have hi: "uint w < 65536" using uint_bounded[of w] by simp
  have lo: "0 \<le> uint w" by simp
  have eq: "sint w = (uint w + 32768) mod 65536 - 32768"
    by (simp add: sint_uint signed_take_bit_eq_take_bit_shift take_bit_eq_mod)
  show ?thesis
  proof (cases "uint w \<ge> 32768")
    case True
    have "uint w + 32768 = uint w - 32768 + 65536"
      by arith
    then have "(uint w + 32768) mod 65536 = (uint w - 32768 + 65536) mod 65536"
      by (rule arg_cong)
    also have "\<dots> = (uint w - 32768) mod 65536"
      by (rule mod_add_self2)
    also have "\<dots> = uint w - 32768"
      using True hi by (intro mod_pos_pos_trivial) simp_all
    finally show ?thesis using True eq by simp
  next
    case False
    then have "(uint w + 32768) mod 65536 = uint w + 32768"
      using lo by (intro mod_pos_pos_trivial) simp_all
    then show ?thesis using False eq by simp
  qed
qed

lemma from_bytes_big_u: "from_bytes [a, b] Big False = uint (word_cat a b :: 16 word)"
  by (simp add: from_bytes_def uint_cat16)

lemma from_bytes_little_u: "from_bytes [a, b] Little False = uint (word_cat b a :: 16 word)"
  by (simp add: from_bytes_def uint_cat16)

lemma from_bytes_big_s: "from_bytes [a, b] Big True = sint (word_cat a b :: 16 word)"
  by (simp add: from_bytes_def uint_cat16 sint16_uint)

lemma from_bytes_little_s: "from_bytes [a, b] Little True = sint (word_cat b a :: 16 word)"
  by (simp add: from_bytes_def uint_cat16 sint16_uint)

lemma find_bytes_first:
  assumes split: "packet = a @ sub @ data"
    and first: "\<forall>j<length a. take (length sub) (drop j packet) \<noteq> sub"
  shows "find_bytes packet sub = int (length a)"
proof -
  have here: "take (length sub) (drop (length a) packet) = sub"
    using split by simp
  from find_aux_spec[of sub packet 0] show ?thesis
  proof
    assume "find_aux sub packet 0 = - 1 \<and> (\<forall>k. take (length sub) (drop k packet) \<noteq> sub)"
    with here show ?thesis by blast
  next
    assume "\<exists>k. find_aux sub packet 0 = int (0 + k) \<and> k + length sub \<le> length packet
          \<and> take (length sub) (drop k packet) = sub
          \<and> (\<forall>j<k. take (length sub) (drop j packet) \<noteq> sub)"
    then obtain k where k: "find_aux sub packet 0 = int k"
        "take (length sub) (drop k packet) = sub"
        "\<forall>j<k. take (length sub) (drop j packet) \<noteq> sub"
      by auto
    have "\<not> k < length a" using first k(2) by blast
    moreover have "\<not> length a < k" using here k(3) by blast
    ultimately have "k = length a" by arith
    with k(1) show ?thesis by (simp add: find_bytes_def)
  qed
qed

lemma find_bytes_absent:
  assumes "\<not> (\<exists>a c. packet = a @ sub @ c)"
  shows "find_bytes packet sub = -1"
proof -
  from assms have none: "\<forall>k. take (length sub) (drop k packet) \<noteq> sub"
    using occurs_iff[of packet sub] by blast
  from find_aux_spec[of sub packet 0] none show ?thesis
    by (auto simp: find_bytes_def)
qed

lemma slice_from_split: "slice_from (a @ p @ data) (int (length a) + int (length p)) = data"
  by (simp add: slice_from_def clip_def)

lemma slice_pair:
  "i + 2 \<le> length data \<Longrightarrow> slice_bytes data (int i) (int i + 2) = [data ! i, data ! Suc i]"
proof -
  assume len: "i + 2 \<le> length data"
  have "drop i (take (i + 2) data) = take 2 (drop i data)"
    by (simp add: drop_take)
  also have "\<dots> = [data ! i, data ! Suc i]"
  proof -
    have "drop i data = data ! i # drop (Suc i) data"
      using len by (simp add: Cons_nth_drop_Suc)
    moreover have "drop (Suc i) data = data ! Suc i # drop (Suc (Suc i)) data"
      using len by (simp add: Cons_nth_drop_Suc)
    ultimately show ?thesis by (simp add: numeral_2_eq_2)
  qed
  finally show ?thesis
    using len by (simp add: slice_bytes_def clip_def nat_add_distrib)
qed

lemma getitem_in: "i < length data \<Longrightarrow> getitem data (int i) = Inr (uint (data ! i))"
  by (simp add: getitem_def)

lemma getitem_neg:
  "0 < k \<Longrightarrow> k \<le> length data \<Longrightarrow> getitem data (- int k) = Inr (uint (data ! (length data - k)))"
  by (simp add: getitem_def Let_def nat_diff_distrib' of_nat_diff)

section \<open>The decoder, case by case\<close>

lemma decode_absent:
  "find_bytes packet preamble = -1 \<Longrightarrow> decode_data_atc now self mac packet = (Inr None, self)"
  by (simp add: decode_data_atc_def dlog_def DEBUG_def)

lemma length_preamble: "length preamble = 3"
  by (simp add: preamble_def)

lemma found_data:
  assumes "packet = a @ preamble @ data"
    and "\<forall>j<length a. take 3 (drop j packet) \<noteq> preamble"
  shows "find_bytes packet preamble = int (length a)"
    and "slice_from packet (int (length a) + int (length preamble)) = data"
proof -
  show "find_bytes packet preamble = int (length a)"
    using assms by (intro find_bytes_first[where data = data]) (simp_all add: length_preamble)
  show "slice_from packet (int (length a) + int (length preamble)) = data"
    unfolding assms(1) by (rule slice_from_split)
qed

lemma decode_other_length:
  assumes "packet = a @ preamble @ data"
    and "\<forall>j<length a. take 3 (drop j packet) \<noteq> preamble"
    and "length data \<noteq> 13" "length data \<noteq> 15"
  shows "decode_data_atc now self mac packet = (Inr None, self)"
  using assms(3,4) found_data[OF assms(1,2)]
  by (simp add: decode_data_atc_def dlog_def DEBUG_def Let_def)

lemma decode_duplicate:
  assumes "packet = a @ preamble @ data"
    and "\<forall>j<length a. take 3 (drop j packet) \<noteq> preamble"
    and "length data = 13 \<and> s = uint (data ! 12) \<or> length data = 15 \<and> s = uint (data ! 13)"
    and "adv_counter self mac = Some s"
  shows "decode_data_atc now self mac packet = (Inr None, self)"
proof -
  from assms(3) have g: "length data = 13 \<and> getitem data (-1) = Inr s
      \<or> length data = 15 \<and> getitem data (-2) = Inr s"
    using getitem_neg[of 1 data] getitem_neg[of 2 data] by auto
  then show ?thesis
    using assms(4) found_data[OF assms(1,2)]
    by (auto simp add: decode_data_atc_def vlog_def VERBOSE_def Let_def)
qed

lemma decode_fresh_A:
  assumes "packet = a @ preamble @ data"
    and "\<forall>j<length a. take 3 (drop j packet) \<noteq> preamble"
    and "length data = 13"
    and "adv_counter self mac \<noteq> Some (uint (data ! 12))"
  shows "decode_data_atc now self mac packet =
     (Inr (Some \<lparr>device_type = ATC1441, adv_number = uint (data ! 12),
                 adv_missed = (case adv_counter self mac of None \<Rightarrow> 0
                               | Some p \<Rightarrow> if p \<noteq> 0 then uint (data ! 12) - p - 1 else 0),
                 timestamp = now,
                 temperature = rat_of_int (from_bytes [data ! 6, data ! 7] Big True) / 10,
                 humidity = rat_of_int (uint (data ! 8)),
                 battery_voltage = from_bytes [data ! 10, data ! 11] Big False,
                 battery_percentage = uint (data ! 9),
                 sensor_name = ''''\<rparr>),
      self\<lparr>adv_counter := (adv_counter self)(mac \<mapsto> uint (data ! 12))\<rparr>)"
proof -
  have g: "getitem data (-1) = Inr (uint (data ! 12))"
    using getitem_neg[of 1 data] assms(3) by simp
  have g8: "getitem data 8 = Inr (uint (data ! 8))"
    using getitem_in[of 8 data] assms(3) by simp
  have g9: "getitem data 9 = Inr (uint (data ! 9))"
    using getitem_in[of 9 data] assms(3) by simp
  have s6: "slice_bytes data 6 8 = [data ! 6, data ! 7]"
    using slice_pair[of 6 data] assms(3) by (simp add: eval_nat_numeral)
  have s10: "slice_bytes data 10 12 = [data ! 10, data ! 11]"
    using slice_pair[of 10 data] assms(3) by (simp add: eval_nat_numeral)
  show ?thesis
    using assms(3,4) found_data[OF assms(1,2)] g g8 g9 s6 s10
    by (simp add: decode_data_atc_def Let_def eq_commute[of "Some _"])
qed

lemma decode_fresh_B:
  assumes "packet = a @ preamble @ data"
    and "\<forall>j<length a. take 3 (drop j packet) \<noteq> preamble"
    and "length data = 15"
    and "adv_counter self mac \<noteq> Some (uint (data ! 13))"
  shows "decode_data_atc now self mac packet =
     (Inr (Some \<lparr>device_type = PVVX, adv_number = uint (data ! 13),
                 adv_missed = (case adv_counter self mac of None \<Rightarrow> 0
                               | Some p \<Rightarrow> if p \<noteq> 0 then uint (data ! 13) - p - 1 else 0),
                 timestamp = now,
                 temperature = rat_of_int (from_bytes [data ! 6, data ! 7] Little True) / 100,
                 humidity = rat_of_int (from_bytes [data ! 8, data ! 9] Little False) / 100,
                 battery_voltage = from_bytes [data ! 10, data ! 11] Little False,
                 battery_percentage = uint (data ! 12),
                 sensor_name = ''''\<rparr>),
      self\<lparr>adv_counter := (adv_counter self)(mac \<mapsto> uint (data ! 13))\<rparr>)"
proof -
  have g: "getitem data (-2) = Inr (uint (data ! 13))"
    using getitem_neg[of 2 data] assms(3) by simp
  have g12: "getitem data 12 = Inr (uint (data ! 12))"
    using getitem_in[of 12 data] assms(3) by simp
  have s6: "slice_bytes data 6 8 = [data ! 6, data ! 7]"
    using slice_pair[of 6 data] assms(3) by (simp add: eval_nat_numeral)
  have s8: "slice_bytes data 8 10 = [data ! 8, data ! 9]"
    using slice_pair[of 8 data] assms(3) by (simp add: eval_nat_numeral)
  have s10: "slice_bytes data 10 12 = [data ! 10, data ! 11]"
    using slice_pair[of 10 data] assms(3) by (simp add: eval_nat_numeral)
  show ?thesis
    using assms(3,4) found_data[OF assms(1,2)] g g12 s6 s8 s10
    by (simp add: decode_data_atc_def Let_def eq_commute[of "Some _"])
qed

lemma absent_iff: "(\<not> (\<exists>a c. packet = a @ sub @ c)) \<longleftrightarrow> find_bytes packet sub = -1"
proof
  assume "\<not> (\<exists>a c. packet = a @ sub @ c)"
  then show "find_bytes packet sub = -1" by (rule find_bytes_absent)
next
  assume neg: "find_bytes packet sub = -1"
  show "\<not> (\<exists>a c. packet = a @ sub @ c)"
  proof
    assume "\<exists>a c. packet = a @ sub @ c"
    then have ex: "\<exists>k. take (length sub) (drop k packet) = sub"
      using occurs_iff[of packet sub] by blast
    from find_aux_spec[of sub packet 0] neg ex show False
      by (auto simp: find_bytes_def)
  qed
qed

lemma found_split:
  assumes "find_bytes packet preamble \<noteq> -1"
  shows "\<exists>a data. packet = a @ preamble @ data
           \<and> (\<forall>j<length a. take 3 (drop j packet) \<noteq> preamble)"
proof -
  from find_aux_spec[of preamble packet 0] assms
  obtain k where k: "k + 3 \<le> length packet" "take 3 (drop k packet) = preamble"
      "\<forall>j<k. take 3 (drop j packet) \<noteq> preamble"
    by (auto simp: find_bytes_def length_preamble)
  have "take 3 (drop k packet) @ drop 3 (drop k packet) = drop k packet"
    by (rule append_take_drop_id)
  then have "packet = take k packet @ preamble @ drop 3 (drop k packet)"
    using k(2) by (simp only: append_take_drop_id)
  moreover have "length (take k packet) = k" using k(1) by simp
  ultimately show ?thesis using k(3) by metis
qed

section \<open>Claims about the decoder\<close>

text \<open>
  C6. A payload in which the three-byte preamble does not occur decodes to \<open>None\<close>.
  When the preamble occurs, \<open>data\<close> being what follows its first occurrence: a length
  other than 13 or 15 decodes to \<open>None\<close>; length 13 is the ATC1441 format with the
  sequence byte in the last position; length 15 is the pvvx format with the sequence
  byte in the second-to-last position. (The sequence byte is the one compared with the
  recorded counter, stored in it, and returned as \<open>adv_number\<close>.)
\<close>

theorem decode_classification:
  "(\<not> (\<exists>a c. packet = a @ preamble @ c)
      \<longrightarrow> decode_data_atc now self mac packet = (Inr None, self))
   \<and> (packet = a @ preamble @ data \<and> (\<forall>j<length a. take 3 (drop j packet) \<noteq> preamble)
      \<longrightarrow> (length data \<noteq> 13 \<and> length data \<noteq> 15
             \<longrightarrow> decode_data_atc now self mac packet = (Inr None, self))
        \<and> (length data = 13 \<and> adv_counter self mac \<noteq> Some (uint (last data))
             \<longrightarrow> (\<exists>m. decode_data_atc now self mac packet =
                        (Inr (Some m), self\<lparr>adv_counter := (adv_counter self)(mac \<mapsto> uint (last data))\<rparr>)
                      \<and> device_type m = ATC1441 \<and> adv_number m = uint (last data)))
        \<and> (length data = 15 \<and> adv_counter self mac \<noteq> Some (uint (last (butlast data)))
             \<longrightarrow> (\<exists>m. decode_data_atc now self mac packet =
                        (Inr (Some m),
                         self\<lparr>adv_counter := (adv_counter self)(mac \<mapsto> uint (last (butlast data)))\<rparr>)
                      \<and> device_type m = PVVX \<and> adv_number m = uint (last (butlast data)))))"
proof (intro conjI impI)
  assume "\<not> (\<exists>a c. packet = a @ preamble @ c)"
  then have "find_bytes packet preamble = -1" by (rule find_bytes_absent)
  then show "decode_data_atc now self mac packet = (Inr None, self)" by (rule decode_absent)
next
  assume sp: "packet = a @ preamble @ data \<and> (\<forall>j<length a. take 3 (drop j packet) \<noteq> preamble)"
    and ln: "length data \<noteq> 13 \<and> length data \<noteq> 15"
  show "decode_data_atc now self mac packet = (Inr None, self)"
    by (rule decode_other_length[OF conjunct1[OF sp] conjunct2[OF sp] conjunct1[OF ln] conjunct2[OF ln]])
next
  assume sp: "packet = a @ preamble @ data \<and> (\<forall>j<length a. take 3 (drop j packet) \<noteq> preamble)"
    and fr: "length data = 13 \<and> adv_counter self mac \<noteq> Some (uint (last data))"
  have l: "last data = data ! 12"
  proof -
    have "data \<noteq> []" using fr by auto
    then show ?thesis using fr by (simp add: last_conv_nth)
  qed
  from fr l have fr': "adv_counter self mac \<noteq> Some (uint (data ! 12))" by simp
  show "\<exists>m. decode_data_atc now self mac packet =
           (Inr (Some m), self\<lparr>adv_counter := (adv_counter self)(mac \<mapsto> uint (last data))\<rparr>)
         \<and> device_type m = ATC1441 \<and> adv_number m = uint (last data)"
    unfolding decode_fresh_A[OF conjunct1[OF sp] conjunct2[OF sp] conjunct1[OF fr] fr'] l
    by simp
next
  assume sp: "packet = a @ preamble @ data \<and> (\<forall>j<length a. take 3 (drop j packet) \<noteq> preamble)"
    and fr: "length data = 15 \<and> adv_counter self mac \<noteq> Some (uint (last (butlast data)))"
  have l: "last (butlast data) = data ! 13"
  proof -
    have len: "length (butlast data) = 14" using fr by simp
    have "butlast data \<noteq> []"
    proof
      assume e: "butlast data = []"
      have "length (butlast data) = 0" unfolding e by simp
      with len show False by linarith
    qed
    then have "last (butlast data) = butlast data ! 13"
      using len by (simp add: last_conv_nth)
    also have "\<dots> = data ! 13"
      using len by (simp add: nth_butlast)
    finally show ?thesis .
  qed
  from fr l have fr': "adv_counter self mac \<noteq> Some (uint (data ! 13))" by simp
  show "\<exists>m. decode_data_atc now self mac packet =
           (Inr (Some m),
            self\<lparr>adv_counter := (adv_counter self)(mac \<mapsto> uint (last (butlast data)))\<rparr>)
         \<and> device_type m = PVVX \<and> adv_number m = uint (last (butlast data))"
    unfolding decode_fresh_B[OF conjunct1[OF sp] conjunct2[OF sp] conjunct1[OF fr] fr'] l
    by simp
qed

theorem decode_classification_witness:
  "decode_data_atc 0 \<lparr>adv_counter = Map.empty, latest_measurement_time = Map.empty, stdout = []\<rparr>
      ''A4:C1:38:01:02:03'' [0x02, 0x01, 0x06, 0x16, 0x1a]
     = (Inr None, \<lparr>adv_counter = Map.empty, latest_measurement_time = Map.empty, stdout = []\<rparr>)
   \<and> decode_data_atc 0 \<lparr>adv_counter = Map.empty, latest_measurement_time = Map.empty, stdout = []\<rparr>
      ''A4:C1:38:01:02:03'' ([0x02] @ preamble @ [0x01, 0x02, 0x03])
     = (Inr None, \<lparr>adv_counter = Map.empty, latest_measurement_time = Map.empty, stdout = []\<rparr>)
   \<and> (\<exists>m. decode_data_atc 0 \<lparr>adv_counter = Map.empty, latest_measurement_time = Map.empty, stdout = []\<rparr>
          ''A4:C1:38:01:02:03''
          ([0x10] @ preamble @ [0xA4, 0xC1, 0x38, 0x01, 0x02, 0x03, 0x00, 0xFA, 0x2D, 0x5A, 0x0B, 0xB8, 0x07])
        = (Inr (Some m), \<lparr>adv_counter = [''A4:C1:38:01:02:03'' \<mapsto> 7],
                           latest_measurement_time = Map.empty, stdout = []\<rparr>)
        \<and> device_type m = ATC1441 \<and> adv_number m = 7)
   \<and> (\<exists>m. decode_data_atc 0 \<lparr>adv_counter = Map.empty, latest_measurement_time = Map.empty, stdout = []\<rparr>
          ''A4:C1:38:01:02:03''
          ([] @ preamble @ [0x03, 0x02, 0x01, 0x38, 0xC1, 0xA4, 0xC4, 0x09, 0x70, 0x17, 0xB8, 0x0B, 0x5A, 0x09, 0x0F])
        = (Inr (Some m), \<lparr>adv_counter = [''A4:C1:38:01:02:03'' \<mapsto> 9],
                           latest_measurement_time = Map.empty, stdout = []\<rparr>)
        \<and> device_type m = PVVX \<and> adv_number m = 9)"
proof -
  let ?S = "\<lparr>adv_counter = Map.empty, latest_measurement_time = Map.empty, stdout = []\<rparr>"
  let ?mac = "''A4:C1:38:01:02:03''"
  let ?dA = "[0xA4, 0xC1, 0x38, 0x01, 0x02, 0x03, 0x00, 0xFA, 0x2D, 0x5A, 0x0B, 0xB8, 0x07] :: byte list"
  let ?dB = "[0x03, 0x02, 0x01, 0x38, 0xC1, 0xA4, 0xC4, 0x09, 0x70, 0x17, 0xB8, 0x0B, 0x5A, 0x09, 0x0F] :: byte list"
  have h1: "\<not> (\<exists>a c. [0x02, 0x01, 0x06, 0x16, 0x1a] = a @ preamble @ c)"
    unfolding absent_iff by (simp add: find_bytes_def preamble_def)
  have h2: "[0x02] @ preamble @ [0x01, 0x02, 0x03] = [0x02] @ preamble @ [0x01, 0x02, 0x03]
      \<and> (\<forall>j<length [0x02 :: byte]. take 3 (drop j ([0x02] @ preamble @ [0x01, 0x02, 0x03])) \<noteq> preamble)"
    by (simp add: preamble_def)
  have h3: "[0x10] @ preamble @ ?dA = [0x10] @ preamble @ ?dA
      \<and> (\<forall>j<length [0x10 :: byte]. take 3 (drop j ([0x10] @ preamble @ ?dA)) \<noteq> preamble)"
    by (simp add: preamble_def)
  have h4: "[] @ preamble @ ?dB = [] @ preamble @ ?dB
      \<and> (\<forall>j<length ([] :: byte list). take 3 (drop j ([] @ preamble @ ?dB)) \<noteq> preamble)"
    by simp
  have c1: "decode_data_atc 0 ?S ?mac [0x02, 0x01, 0x06, 0x16, 0x1a] = (Inr None, ?S)"
    using decode_classification[of "[0x02, 0x01, 0x06, 0x16, 0x1a]" 0 ?S ?mac "[]" "[]"] h1 by blast
  have c2: "decode_data_atc 0 ?S ?mac ([0x02] @ preamble @ [0x01, 0x02, 0x03]) = (Inr None, ?S)"
    using decode_classification[of "[0x02] @ preamble @ [0x01, 0x02, 0x03]" 0 ?S ?mac "[0x02]" "[0x01, 0x02, 0x03]"] h2
    by simp
  have c3: "\<exists>m. decode_data_atc 0 ?S ?mac ([0x10] @ preamble @ ?dA)
        = (Inr (Some m), ?S\<lparr>adv_counter := (adv_counter ?S)(?mac \<mapsto> uint (last ?dA))\<rparr>)
        \<and> device_type m = ATC1441 \<and> adv_number m = uint (last ?dA)"
    using decode_classification[of "[0x10] @ preamble @ ?dA" 0 ?S ?mac "[0x10]" ?dA] h3
    by simp
  have c4: "\<exists>m. decode_data_atc 0 ?S ?mac ([] @ preamble @ ?dB)
        = (Inr (Some m), ?S\<lparr>adv_counter := (adv_counter ?S)(?mac \<mapsto> uint (last (butlast ?dB)))\<rparr>)
        \<and> device_type m = PVVX \<and> adv_number m = uint (last (butlast ?dB))"
    using decode_classification[of "[] @ preamble @ ?dB" 0 ?S ?mac "[]" ?dB] h4
    by simp
  from c1 c2 c3 c4 show ?thesis by simp
qed

text \<open>
  C7. For a payload of the pvvx format (15 bytes after the first preamble), the
  Measurement that decode returns has: temperature, the little-endian signed 16-bit
  integer at offset 6 divided by 100; humidity, the little-endian unsigned 16-bit
  integer at offset 8 divided by 100; battery_voltage, the little-endian unsigned 16-bit
  integer at offset 10; battery_percentage, the byte at offset 12. A Measurement is
  returned whenever the sequence byte is not the recorded one.
\<close>

theorem decode_pvvx_fields:
  assumes "packet = a @ preamble @ data"
    and "\<forall>j<length a. take 3 (drop j packet) \<noteq> preamble"
    and "length data = 15"
  shows "(\<forall>m self'. decode_data_atc now self mac packet = (Inr (Some m), self') \<longrightarrow>
            device_type m = PVVX
          \<and> temperature m = rat_of_int (sint (word_cat (data ! 7) (data ! 6) :: 16 word)) / 100
          \<and> humidity m = rat_of_int (uint (word_cat (data ! 9) (data ! 8) :: 16 word)) / 100
          \<and> battery_voltage m = uint (word_cat (data ! 11) (data ! 10) :: 16 word)
          \<and> battery_percentage m = uint (data ! 12))
       \<and> (adv_counter self mac \<noteq> Some (uint (data ! 13)) \<longrightarrow>
            (\<exists>m self'. decode_data_atc now self mac packet = (Inr (Some m), self')))"
proof (cases "adv_counter self mac = Some (uint (data ! 13))")
  case True
  have "decode_data_atc now self mac packet = (Inr None, self)"
    using decode_duplicate[OF assms(1,2) _ True] assms(3) by simp
  with True show ?thesis by simp
next
  case False
  show ?thesis
    unfolding decode_fresh_B[OF assms False]
    by (simp add: from_bytes_little_s from_bytes_little_u)
qed

theorem decode_pvvx_fields_witness:
  "\<exists>m self'. decode_data_atc 0
        \<lparr>adv_counter = [''A4:C1:38:01:02:03'' \<mapsto> 8], latest_measurement_time = Map.empty, stdout = []\<rparr>
        ''A4:C1:38:01:02:03''
        ([0x12] @ preamble @ [0x03, 0x02, 0x01, 0x38, 0xC1, 0xA4, 0x0C, 0xFE, 0x70, 0x17, 0xB8, 0x0B, 0x5A, 0x09, 0x0F])
      = (Inr (Some m), self')
    \<and> device_type m = PVVX \<and> temperature m = - 5 \<and> humidity m = 60
    \<and> battery_voltage m = 3000 \<and> battery_percentage m = 90"
proof -
  let ?S = "\<lparr>adv_counter = [''A4:C1:38:01:02:03'' \<mapsto> 8], latest_measurement_time = Map.empty, stdout = []\<rparr>"
  let ?d = "[0x03, 0x02, 0x01, 0x38, 0xC1, 0xA4, 0x0C, 0xFE, 0x70, 0x17, 0xB8, 0x0B, 0x5A, 0x09, 0x0F] :: byte list"
  have h1: "[0x12] @ preamble @ ?d = [0x12] @ preamble @ ?d" by simp
  have h2: "\<forall>j<length [0x12 :: byte]. take 3 (drop j ([0x12] @ preamble @ ?d)) \<noteq> preamble"
    by (simp add: preamble_def)
  have h3: "length ?d = 15" by simp
  have h4: "adv_counter ?S ''A4:C1:38:01:02:03'' \<noteq> Some (uint (?d ! 13))" by simp
  have t: "sint (word_cat (0xFE :: byte) (0x0C :: byte) :: 16 word) = - 500"
    by (simp add: word_cat_eq)
  have u: "uint (word_cat (0x17 :: byte) (0x70 :: byte) :: 16 word) = 6000"
    by (simp add: uint_cat16)
  have v: "uint (word_cat (0x0B :: byte) (0xB8 :: byte) :: 16 word) = 3000"
    by (simp add: uint_cat16)
  from decode_pvvx_fields[OF h1 h2 h3, of 0 ?S "''A4:C1:38:01:02:03''"] h4
  obtain m self' where m: "decode_data_atc 0 ?S ''A4:C1:38:01:02:03'' ([0x12] @ preamble @ ?d) = (Inr (Some m), self')"
    by blast
  with decode_pvvx_fields[OF h1 h2 h3, of 0 ?S "''A4:C1:38:01:02:03''"]
  have "device_type m = PVVX
      \<and> temperature m = rat_of_int (sint (word_cat (?d ! 7) (?d ! 6) :: 16 word)) / 100
      \<and> humidity m = rat_of_int (uint (word_cat (?d ! 9) (?d ! 8) :: 16 word)) / 100
      \<and> battery_voltage m = uint (word_cat (?d ! 11) (?d ! 10) :: 16 word)
      \<and> battery_percentage m = uint (?d ! 12)"
    by blast
  then have "device_type m = PVVX \<and> temperature m = - 5 \<and> humidity m = 60
    \<and> battery_voltage m = 3000 \<and> battery_percentage m = 90"
    by (simp add: t u v)
  with m show ?thesis by blast
qed

text \<open>
  C2, as amended. For a payload of the ATC1441 format (13 bytes after the first
  preamble), the Measurement that decode returns has: temperature, the big-endian
  signed 16-bit integer at offset 6 divided by 10; humidity, the byte at offset 8;
  battery_percentage, the byte at offset 9; battery_voltage, the big-endian (not
  little-endian) unsigned 16-bit integer at offset 10. A Measurement is returned
  whenever the sequence byte is not the recorded one.
\<close>

theorem decode_atc1441_fields:
  assumes "packet = a @ preamble @ data"
    and "\<forall>j<length a. take 3 (drop j packet) \<noteq> preamble"
    and "length data = 13"
  shows "(\<forall>m self'. decode_data_atc now self mac packet = (Inr (Some m), self') \<longrightarrow>
            device_type m = ATC1441
          \<and> temperature m = rat_of_int (sint (word_cat (data ! 6) (data ! 7) :: 16 word)) / 10
          \<and> humidity m = rat_of_int (uint (data ! 8))
          \<and> battery_percentage m = uint (data ! 9)
          \<and> battery_voltage m = uint (word_cat (data ! 10) (data ! 11) :: 16 word))
       \<and> (adv_counter self mac \<noteq> Some (uint (data ! 12)) \<longrightarrow>
            (\<exists>m self'. decode_data_atc now self mac packet = (Inr (Some m), self')))"
proof (cases "adv_counter self mac = Some (uint (data ! 12))")
  case True
  have "decode_data_atc now self mac packet = (Inr None, self)"
    using decode_duplicate[OF assms(1,2) _ True] assms(3) by simp
  with True show ?thesis by simp
next
  case False
  show ?thesis
    unfolding decode_fresh_A[OF assms False]
    by (simp add: from_bytes_big_s from_bytes_big_u)
qed

theorem decode_atc1441_fields_witness:
  "\<exists>m self'. decode_data_atc 0
        \<lparr>adv_counter = Map.empty, latest_measurement_time = Map.empty, stdout = []\<rparr>
        ''A4:C1:38:01:02:03''
        ([0x10] @ preamble @ [0xA4, 0xC1, 0x38, 0x01, 0x02, 0x03, 0x00, 0xFA, 0x2D, 0x5A, 0x0B, 0xB8, 0x07])
      = (Inr (Some m), self')
    \<and> device_type m = ATC1441 \<and> temperature m = 25 \<and> humidity m = 45
    \<and> battery_percentage m = 90 \<and> battery_voltage m = 3000"
proof -
  let ?S = "\<lparr>adv_counter = Map.empty, latest_measurement_time = Map.empty, stdout = []\<rparr>"
  let ?d = "[0xA4, 0xC1, 0x38, 0x01, 0x02, 0x03, 0x00, 0xFA, 0x2D, 0x5A, 0x0B, 0xB8, 0x07] :: byte list"
  have h1: "[0x10] @ preamble @ ?d = [0x10] @ preamble @ ?d" by simp
  have h2: "\<forall>j<length [0x10 :: byte]. take 3 (drop j ([0x10] @ preamble @ ?d)) \<noteq> preamble"
    by (simp add: preamble_def)
  have h3: "length ?d = 13" by simp
  have h4: "adv_counter ?S ''A4:C1:38:01:02:03'' \<noteq> Some (uint (?d ! 12))" by simp
  have t: "sint (word_cat (0x00 :: byte) (0xFA :: byte) :: 16 word) = 250"
    by (simp add: word_cat_eq)
  have v: "uint (word_cat (0x0B :: byte) (0xB8 :: byte) :: 16 word) = 3000"
    by (simp add: uint_cat16)
  from decode_atc1441_fields[OF h1 h2 h3, of 0 ?S "''A4:C1:38:01:02:03''"] h4
  obtain m self' where m: "decode_data_atc 0 ?S ''A4:C1:38:01:02:03'' ([0x10] @ preamble @ ?d) = (Inr (Some m), self')"
    by blast
  with decode_atc1441_fields[OF h1 h2 h3, of 0 ?S "''A4:C1:38:01:02:03''"]
  have "device_type m = ATC1441
      \<and> temperature m = rat_of_int (sint (word_cat (?d ! 6) (?d ! 7) :: 16 word)) / 10
      \<and> humidity m = rat_of_int (uint (?d ! 8))
      \<and> battery_percentage m = uint (?d ! 9)
      \<and> battery_voltage m = uint (word_cat (?d ! 10) (?d ! 11) :: 16 word)"
    by blast
  then have "device_type m = ATC1441 \<and> temperature m = 25 \<and> humidity m = 45
    \<and> battery_percentage m = 90 \<and> battery_voltage m = 3000"
    by (simp add: t v)
  with m show ?thesis by blast
qed

text \<open>
  C2 as stated fails: with the bytes \<open>0x0B 0xB8\<close> at offset 10 the decoded voltage is
  3000, their big-endian value; their little-endian value is 47115.
\<close>

theorem atc1441_battery_counterexample:
  "decode_data_atc 0
      \<lparr>adv_counter = Map.empty, latest_measurement_time = Map.empty, stdout = []\<rparr>
      ''A4:C1:38:01:02:03''
      [0x16, 0x1a, 0x18, 0xA4, 0xC1, 0x38, 0x01, 0x02, 0x03, 0x00, 0xFA, 0x2D, 0x5A, 0x0B, 0xB8, 0x07]
    = (Inr (Some \<lparr>device_type = ATC1441, adv_number = 7, adv_missed = 0, timestamp = 0,
                  temperature = 25, humidity = 45, battery_voltage = 3000,
                  battery_percentage = 90, sensor_name = ''''\<rparr>),
       \<lparr>adv_counter = [''A4:C1:38:01:02:03'' \<mapsto> 7], latest_measurement_time = Map.empty,
          stdout = []\<rparr>)
   \<and> uint (word_cat (0xB8 :: byte) (0x0B :: byte) :: 16 word) = 47115
   \<and> (3000 :: int) \<noteq> 47115"
proof -
  have "uint (word_cat (0xB8 :: byte) (0x0B :: byte) :: 16 word) = 47115"
    by (simp add: uint_cat16)
  moreover have "decode_data_atc 0
      \<lparr>adv_counter = Map.empty, latest_measurement_time = Map.empty, stdout = []\<rparr>
      ''A4:C1:38:01:02:03''
      [0x16, 0x1a, 0x18, 0xA4, 0xC1, 0x38, 0x01, 0x02, 0x03, 0x00, 0xFA, 0x2D, 0x5A, 0x0B, 0xB8, 0x07]
    = (Inr (Some \<lparr>device_type = ATC1441, adv_number = 7, adv_missed = 0, timestamp = 0,
                  temperature = 25, humidity = 45, battery_voltage = 3000,
                  battery_percentage = 90, sensor_name = ''''\<rparr>),
       \<lparr>adv_counter = [''A4:C1:38:01:02:03'' \<mapsto> 7], latest_measurement_time = Map.empty,
          stdout = []\<rparr>)"
    by (simp add: decode_data_atc_def find_bytes_def preamble_def slice_from_def slice_bytes_def
        clip_def getitem_def from_bytes_def Let_def)
  ultimately show ?thesis by simp
qed

text \<open>
  C10. For a payload with exactly 13 or exactly 15 bytes after the first preamble, every
  byte access of decode is within the data: the indexed reads return a byte, the
  two-byte slices are full, and decode raises nothing.
\<close>

theorem decode_in_bounds:
  assumes "packet = a @ preamble @ data"
    and "\<forall>j<length a. take 3 (drop j packet) \<noteq> preamble"
    and "length data = 13 \<or> length data = 15"
  shows "(\<exists>r. fst (decode_data_atc now self mac packet) = Inr r)
       \<and> (length data = 13 \<longrightarrow>
            getitem data (-1) = Inr (uint (data ! 12))
          \<and> getitem data 8 = Inr (uint (data ! 8))
          \<and> getitem data 9 = Inr (uint (data ! 9))
          \<and> slice_bytes data 6 8 = [data ! 6, data ! 7]
          \<and> slice_bytes data 10 12 = [data ! 10, data ! 11])
       \<and> (length data = 15 \<longrightarrow>
            getitem data (-2) = Inr (uint (data ! 13))
          \<and> getitem data 12 = Inr (uint (data ! 12))
          \<and> slice_bytes data 6 8 = [data ! 6, data ! 7]
          \<and> slice_bytes data 8 10 = [data ! 8, data ! 9]
          \<and> slice_bytes data 10 12 = [data ! 10, data ! 11])"
proof (intro conjI impI)
  show "\<exists>r. fst (decode_data_atc now self mac packet) = Inr r"
  proof (cases "length data = 13")
    case True
    show ?thesis
    proof (cases "adv_counter self mac = Some (uint (data ! 12))")
      case dup: True
      show ?thesis
        using decode_duplicate[OF assms(1,2) _ dup] True by simp
    next
      case False
      show ?thesis
        unfolding decode_fresh_A[OF assms(1,2) True False] by simp
    qed
  next
    case False
    with assms(3) have l: "length data = 15" by simp
    show ?thesis
    proof (cases "adv_counter self mac = Some (uint (data ! 13))")
      case dup: True
      show ?thesis
        using decode_duplicate[OF assms(1,2) _ dup] l by simp
    next
      case False
      show ?thesis
        unfolding decode_fresh_B[OF assms(1,2) l False] by simp
    qed
  qed
next
  assume l: "length data = 13"
  show "getitem data (-1) = Inr (uint (data ! 12))"
    using getitem_neg[of 1 data] l by simp
  show "getitem data 8 = Inr (uint (data ! 8))"
    using getitem_in[of 8 data] l by simp
  show "getitem data 9 = Inr (uint (data ! 9))"
    using getitem_in[of 9 data] l by simp
  show "slice_bytes data 6 8 = [data ! 6, data ! 7]"
    using slice_pair[of 6 data] l by (simp add: eval_nat_numeral)
  show "slice_bytes data 10 12 = [data ! 10, data ! 11]"
    using slice_pair[of 10 data] l by (simp add: eval_nat_numeral)
next
  assume l: "length data = 15"
  show "getitem data (-2) = Inr (uint (data ! 13))"
    using getitem_neg[of 2 data] l by simp
  show "getitem data 12 = Inr (uint (data ! 12))"
    using getitem_in[of 12 data] l by simp
  show "slice_bytes data 6 8 = [data ! 6, data ! 7]"
    using slice_pair[of 6 data] l by (simp add: eval_nat_numeral)
  show "slice_bytes data 8 10 = [data ! 8, data ! 9]"
    using slice_pair[of 8 data] l by (simp add: eval_nat_numeral)
  show "slice_bytes data 10 12 = [data ! 10, data ! 11]"
    using slice_pair[of 10 data] l by (simp add: eval_nat_numeral)
qed

theorem decode_in_bounds_witness:
  "(\<exists>r. fst (decode_data_atc 0
        \<lparr>adv_counter = Map.empty, latest_measurement_time = Map.empty, stdout = []\<rparr>
        ''A4:C1:38:01:02:03''
        ([0x10] @ preamble @ [0xA4, 0xC1, 0x38, 0x01, 0x02, 0x03, 0x00, 0xFA, 0x2D, 0x5A, 0x0B, 0xB8, 0x07])) = Inr r)
   \<and> getitem [0xA4, 0xC1, 0x38, 0x01, 0x02, 0x03, 0x00, 0xFA, 0x2D, 0x5A, 0x0B, 0xB8, 0x07] (-1) = Inr 7
   \<and> (\<exists>r. fst (decode_data_atc 0
        \<lparr>adv_counter = Map.empty, latest_measurement_time = Map.empty, stdout = []\<rparr>
        ''A4:C1:38:01:02:03''
        ([] @ preamble @ [0x03, 0x02, 0x01, 0x38, 0xC1, 0xA4, 0x0C, 0xFE, 0x70, 0x17, 0xB8, 0x0B, 0x5A, 0x09, 0x0F])) = Inr r)
   \<and> getitem [0x03, 0x02, 0x01, 0x38, 0xC1, 0xA4, 0x0C, 0xFE, 0x70, 0x17, 0xB8, 0x0B, 0x5A, 0x09, 0x0F] (-2) = Inr 9"
proof -
  let ?S = "\<lparr>adv_counter = Map.empty, latest_measurement_time = Map.empty, stdout = []\<rparr>"
  let ?dA = "[0xA4, 0xC1, 0x38, 0x01, 0x02, 0x03, 0x00, 0xFA, 0x2D, 0x5A, 0x0B, 0xB8, 0x07] :: byte list"
  let ?dB = "[0x03, 0x02, 0x01, 0x38, 0xC1, 0xA4, 0x0C, 0xFE, 0x70, 0x17, 0xB8, 0x0B, 0x5A, 0x09, 0x0F] :: byte list"
  have a1: "[0x10] @ preamble @ ?dA = [0x10] @ preamble @ ?dA" by simp
  have a2: "\<forall>j<length [0x10 :: byte]. take 3 (drop j ([0x10] @ preamble @ ?dA)) \<noteq> preamble"
    by (simp add: preamble_def)
  have a3: "length ?dA = 13 \<or> length ?dA = 15" by simp
  have b1: "[] @ preamble @ ?dB = [] @ preamble @ ?dB" by simp
  have b2: "\<forall>j<length ([] :: byte list). take 3 (drop j ([] @ preamble @ ?dB)) \<noteq> preamble"
    by simp
  have b3: "length ?dB = 13 \<or> length ?dB = 15" by simp
  from decode_in_bounds[OF a1 a2 a3, of 0 ?S "''A4:C1:38:01:02:03''"]
  have A: "(\<exists>r. fst (decode_data_atc 0 ?S ''A4:C1:38:01:02:03'' ([0x10] @ preamble @ ?dA)) = Inr r)
      \<and> getitem ?dA (-1) = Inr 7"
    by simp
  from decode_in_bounds[OF b1 b2 b3, of 0 ?S "''A4:C1:38:01:02:03''"]
  have B: "(\<exists>r. fst (decode_data_atc 0 ?S ''A4:C1:38:01:02:03'' ([] @ preamble @ ?dB)) = Inr r)
      \<and> getitem ?dB (-2) = Inr 9"
    by simp
  from A B show ?thesis by blast
qed

text \<open>
  C3. A Measurement is returned only when its sequence byte differs from the one
  recorded for the address. When the sequence byte of a classified payload equals the
  recorded one, decode returns \<open>None\<close> and the handler prints nothing; the counters,
  the observation times and the output are as before.
\<close>

theorem duplicate_suppression:
  "(decode_data_atc now self mac packet = (Inr (Some m), self')
      \<longrightarrow> adv_counter self mac \<noteq> Some (adv_number m)
        \<and> adv_counter self' mac = Some (adv_number m))
   \<and> (packet = a @ preamble @ data \<and> (\<forall>j<length a. take 3 (drop j packet) \<noteq> preamble)
      \<and> (length data = 13 \<and> s = uint (last data)
          \<or> length data = 15 \<and> s = uint (last (butlast data)))
      \<and> adv_counter self mac = Some s
      \<longrightarrow> decode_data_atc now self mac packet = (Inr None, self)
        \<and> le_advertise_packet_handler perf now self mac adv_type packet rssi = (None, self))"
proof (intro conjI impI)
  assume r: "decode_data_atc now self mac packet = (Inr (Some m), self')"
  have "find_bytes packet preamble \<noteq> -1"
    using decode_absent[of packet now self mac] r by auto
  from found_split[OF this] obtain a' d where sp: "packet = a' @ preamble @ d"
      and fi: "\<forall>j<length a'. take 3 (drop j packet) \<noteq> preamble"
    by blast
  have len: "length d = 13 \<or> length d = 15"
    using decode_other_length[OF sp fi, of now self mac] r by auto
  have both: "adv_counter self mac \<noteq> Some (adv_number m) \<and> adv_counter self' mac = Some (adv_number m)"
  proof (cases "length d = 13")
    case True
    have fr: "adv_counter self mac \<noteq> Some (uint (d ! 12))"
      using decode_duplicate[OF sp fi, of "uint (d ! 12)" self mac now] True r by auto
    from r show ?thesis
      unfolding decode_fresh_A[OF sp fi True fr] using fr by auto
  next
    case False
    with len have l: "length d = 15" by simp
    have fr: "adv_counter self mac \<noteq> Some (uint (d ! 13))"
      using decode_duplicate[OF sp fi, of "uint (d ! 13)" self mac now] l r by auto
    from r show ?thesis
      unfolding decode_fresh_B[OF sp fi l fr] using fr by auto
  qed
  from both show "adv_counter self mac \<noteq> Some (adv_number m)" by (rule conjunct1)
  from both show "adv_counter self' mac = Some (adv_number m)" by (rule conjunct2)
next
  assume h: "packet = a @ preamble @ data \<and> (\<forall>j<length a. take 3 (drop j packet) \<noteq> preamble)
      \<and> (length data = 13 \<and> s = uint (last data)
          \<or> length data = 15 \<and> s = uint (last (butlast data)))
      \<and> adv_counter self mac = Some s"
  then have sp: "packet = a @ preamble @ data"
    and fi: "\<forall>j<length a. take 3 (drop j packet) \<noteq> preamble"
    and sq: "length data = 13 \<and> s = uint (last data)
          \<or> length data = 15 \<and> s = uint (last (butlast data))"
    and cn: "adv_counter self mac = Some s"
    by blast+
  have sq': "length data = 13 \<and> s = uint (data ! 12) \<or> length data = 15 \<and> s = uint (data ! 13)"
  proof -
    have "length data = 13 \<Longrightarrow> last data = data ! 12"
    proof -
      assume l: "length data = 13"
      then have "data \<noteq> []" by auto
      then show ?thesis using l by (simp add: last_conv_nth)
    qed
    moreover have "length data = 15 \<Longrightarrow> last (butlast data) = data ! 13"
    proof -
      assume l: "length data = 15"
      have len: "length (butlast data) = 14" using l by simp
      have "butlast data \<noteq> []"
      proof
        assume e: "butlast data = []"
        have "length (butlast data) = 0" unfolding e by simp
        with len show False by linarith
      qed
      then have "last (butlast data) = butlast data ! 13"
        using len by (simp add: last_conv_nth)
      also have "\<dots> = data ! 13"
        using len by (simp add: nth_butlast)
      finally show ?thesis .
    qed
    ultimately show ?thesis using sq by auto
  qed
  show d: "decode_data_atc now self mac packet = (Inr None, self)"
    by (rule decode_duplicate[OF sp fi sq' cn])
  show "le_advertise_packet_handler perf now self mac adv_type packet rssi = (None, self)"
    by (simp add: le_advertise_packet_handler_def d)
qed

theorem duplicate_suppression_witness:
  "decode_data_atc 0
      \<lparr>adv_counter = [''A4:C1:38:01:02:03'' \<mapsto> 7], latest_measurement_time = [''A4:C1:38:01:02:03'' \<mapsto> 3], stdout = []\<rparr>
      ''A4:C1:38:01:02:03''
      ([] @ preamble @ [0xA4, 0xC1, 0x38, 0x01, 0x02, 0x03, 0x00, 0xFA, 0x2D, 0x5A, 0x0B, 0xB8, 0x07])
    = (Inr None,
       \<lparr>adv_counter = [''A4:C1:38:01:02:03'' \<mapsto> 7], latest_measurement_time = [''A4:C1:38:01:02:03'' \<mapsto> 3], stdout = []\<rparr>)
   \<and> le_advertise_packet_handler 5 0
      \<lparr>adv_counter = [''A4:C1:38:01:02:03'' \<mapsto> 7], latest_measurement_time = [''A4:C1:38:01:02:03'' \<mapsto> 3], stdout = []\<rparr>
      ''A4:C1:38:01:02:03'' 0
      ([] @ preamble @ [0xA4, 0xC1, 0x38, 0x01, 0x02, 0x03, 0x00, 0xFA, 0x2D, 0x5A, 0x0B, 0xB8, 0x07]) (- 60)
    = (None,
       \<lparr>adv_counter = [''A4:C1:38:01:02:03'' \<mapsto> 7], latest_measurement_time = [''A4:C1:38:01:02:03'' \<mapsto> 3], stdout = []\<rparr>)
   \<and> adv_counter \<lparr>adv_counter = [''A4:C1:38:01:02:03'' \<mapsto> 6], latest_measurement_time = Map.empty, stdout = []\<rparr>
        ''A4:C1:38:01:02:03'' \<noteq> Some 7"
proof -
  let ?S = "\<lparr>adv_counter = [''A4:C1:38:01:02:03'' \<mapsto> 7], latest_measurement_time = [''A4:C1:38:01:02:03'' \<mapsto> 3], stdout = []\<rparr>"
  let ?d = "[0xA4, 0xC1, 0x38, 0x01, 0x02, 0x03, 0x00, 0xFA, 0x2D, 0x5A, 0x0B, 0xB8, 0x07] :: byte list"
  have h: "[] @ preamble @ ?d = [] @ preamble @ ?d
      \<and> (\<forall>j<length ([] :: byte list). take 3 (drop j ([] @ preamble @ ?d)) \<noteq> preamble)
      \<and> (length ?d = 13 \<and> 7 = uint (last ?d) \<or> length ?d = 15 \<and> 7 = uint (last (butlast ?d)))
      \<and> adv_counter ?S ''A4:C1:38:01:02:03'' = Some 7"
    by simp
  have first: "decode_data_atc 0 ?S ''A4:C1:38:01:02:03'' ([] @ preamble @ ?d) = (Inr None, ?S)
      \<and> le_advertise_packet_handler 5 0 ?S ''A4:C1:38:01:02:03'' 0 ([] @ preamble @ ?d) (- 60) = (None, ?S)"
    using duplicate_suppression[THEN conjunct2, rule_format, OF h] .
  let ?T = "\<lparr>adv_counter = [''A4:C1:38:01:02:03'' \<mapsto> 6], latest_measurement_time = Map.empty, stdout = []\<rparr>"
  have run: "decode_data_atc 0 ?T ''A4:C1:38:01:02:03'' ([] @ preamble @ ?d)
      = (Inr (Some \<lparr>device_type = ATC1441, adv_number = 7, adv_missed = 0, timestamp = 0,
                  temperature = 25, humidity = 45, battery_voltage = 3000,
                  battery_percentage = 90, sensor_name = ''''\<rparr>),
         \<lparr>adv_counter = [''A4:C1:38:01:02:03'' \<mapsto> 7], latest_measurement_time = Map.empty, stdout = []\<rparr>)"
    by (simp add: decode_data_atc_def find_bytes_def preamble_def slice_from_def slice_bytes_def
        clip_def getitem_def from_bytes_def Let_def)
  have second: "adv_counter ?T ''A4:C1:38:01:02:03'' \<noteq> Some 7"
    using duplicate_suppression[THEN conjunct1, rule_format, OF run] by simp
  from first second show ?thesis by blast
qed

text \<open>
  C1 on the code: with 255 recorded and sequence byte 1, \<open>adv_missed\<close> is \<open>-255\<close>,
  where the claim says 1; with 0 recorded and sequence byte 5, \<open>adv_missed\<close> is 0,
  where the claim says 4.
\<close>

theorem missed_count_without_wraparound:
  "decode_data_atc 0
      \<lparr>adv_counter = [''A4:C1:38:01:02:03'' \<mapsto> 255], latest_measurement_time = Map.empty, stdout = []\<rparr>
      ''A4:C1:38:01:02:03''
      [0x16, 0x1a, 0x18, 0xA4, 0xC1, 0x38, 0x01, 0x02, 0x03, 0x00, 0xFA, 0x2D, 0x5A, 0x0B, 0xB8, 0x01]
    = (Inr (Some \<lparr>device_type = ATC1441, adv_number = 1, adv_missed = - 255, timestamp = 0,
                  temperature = 25, humidity = 45, battery_voltage = 3000,
                  battery_percentage = 90, sensor_name = ''''\<rparr>),
       \<lparr>adv_counter = [''A4:C1:38:01:02:03'' \<mapsto> 1], latest_measurement_time = Map.empty,
          stdout = []\<rparr>)
   \<and> decode_data_atc 0
      \<lparr>adv_counter = [''A4:C1:38:01:02:03'' \<mapsto> 0], latest_measurement_time = Map.empty, stdout = []\<rparr>
      ''A4:C1:38:01:02:03''
      [0x16, 0x1a, 0x18, 0xA4, 0xC1, 0x38, 0x01, 0x02, 0x03, 0x00, 0xFA, 0x2D, 0x5A, 0x0B, 0xB8, 0x05]
    = (Inr (Some \<lparr>device_type = ATC1441, adv_number = 5, adv_missed = 0, timestamp = 0,
                  temperature = 25, humidity = 45, battery_voltage = 3000,
                  battery_percentage = 90, sensor_name = ''''\<rparr>),
       \<lparr>adv_counter = [''A4:C1:38:01:02:03'' \<mapsto> 5], latest_measurement_time = Map.empty,
          stdout = []\<rparr>)"
  by (simp add: decode_data_atc_def find_bytes_def preamble_def slice_from_def slice_bytes_def
      clip_def getitem_def from_bytes_def Let_def)

section \<open>The receive loop, one frame at a time\<close>

lemma unpack_BBB_eq:
  "unpack_BBB b = (if length b = 3 then Inr (uint (b ! 0), uint (b ! 1), uint (b ! 2)) else Inl struct_error)"
  by (auto simp: unpack_BBB_def split: list.splits)

lemma unpack_B_eq:
  "unpack_B b = (if length b = 1 then Inr (uint (b ! 0)) else Inl struct_error)"
  by (auto simp: unpack_B_def split: list.splits)

lemma unpack_b_eq:
  "unpack_b b = (if length b = 1 then Inr (sint (b ! 0)) else Inl struct_error)"
  by (auto simp: unpack_b_def split: list.splits)

lemma slice_header: "slice_bytes f 0 3 = take 3 f"
  by (simp add: slice_bytes_def clip_def min_def)

lemma slice_sub_event: "slice_bytes f 3 4 = drop 3 (take 4 f)"
  by (simp add: slice_bytes_def clip_def min_def)

lemma slice_adv_type: "slice_bytes (slice_from f 4) 1 2 = drop 5 (take 6 f)"
proof -
  have "slice_from f 4 = drop 4 f"
    by (simp add: slice_from_def clip_def min_def)
  moreover have "slice_bytes (drop 4 f) 1 2 = drop 1 (take 2 (drop 4 f))"
    by (simp add: slice_bytes_def clip_def min_def)
  moreover have "drop 1 (take 2 (drop 4 f)) = drop 5 (take 6 f)"
    by (simp add: take_drop)
  ultimately show ?thesis by simp
qed

lemma slice_rssi:
  "f \<noteq> [] \<Longrightarrow> slice_bytes f (int (length f) - 1) (int (length f)) = [last f]"
proof -
  assume ne: "f \<noteq> []"
  then have pos: "0 < length f" by simp
  have "clip (length f) (int (length f) - 1) = length f - 1"
    using pos by (simp add: clip_def nat_diff_distrib')
  moreover have "clip (length f) (int (length f)) = length f"
    by (simp add: clip_def)
  moreover have "drop (length f - 1) f = [last f]"
    using ne by (metis append_butlast_last_id append_eq_conv_conj length_butlast)
  ultimately show ?thesis by (simp add: slice_bytes_def)
qed

lemma frame_step:
  "receive_loop ba2str handler (Frame f # rest) h out =
     (if length f < 3 then Some (struct_error, h, out)
      else if uint (f ! 1) \<noteq> LE_META_EVENT then receive_loop ba2str handler rest h out
      else if length f < 4 then Some (struct_error, h, out)
      else if uint (f ! 3) \<noteq> EVT_LE_ADVERTISING_REPORT then receive_loop ba2str handler rest h out
      else if length f < 6 then Some (struct_error, h, out)
      else (case handler h (ba2str (slice_bytes (slice_from f 4) 3 9)) (sint (f ! 5))
                   (slice_bytes (slice_from f 4) 9 (-1)) (sint (last f)) of
              (None, h') \<Rightarrow> receive_loop ba2str handler rest h' out
            | (Some e, h') \<Rightarrow>
                if is_Exception e
                then receive_loop ba2str handler rest h' (out @ [Handler_exception e])
                else Some (e, h', out)))"
proof -
  have rssi: "6 \<le> length f \<Longrightarrow>
      unpack_b (slice_bytes f (int (length f) - 1) (int (length f))) = Inr (sint (last f))"
  proof -
    assume "6 \<le> length f"
    then have "f \<noteq> []" by auto
    then show ?thesis by (simp add: slice_rssi unpack_b_eq)
  qed
  have adv: "6 \<le> length f \<Longrightarrow> unpack_b (slice_bytes (slice_from f 4) 1 2) = Inr (sint (f ! 5))"
    by (simp add: slice_adv_type unpack_b_eq min_def)
  have adv': "length f < 6 \<Longrightarrow> unpack_b (slice_bytes (slice_from f 4) 1 2) = Inl struct_error"
    by (simp add: slice_adv_type unpack_b_eq min_def)
  have sub: "4 \<le> length f \<Longrightarrow> unpack_B (slice_bytes f 3 4) = Inr (uint (f ! 3))"
    by (simp add: slice_sub_event unpack_B_eq min_def)
  have sub': "length f < 4 \<Longrightarrow> unpack_B (slice_bytes f 3 4) = Inl struct_error"
    by (simp add: slice_sub_event unpack_B_eq min_def)
  have hdr: "3 \<le> length f \<Longrightarrow>
      unpack_BBB (slice_bytes f 0 3) = Inr (uint (f ! 0), uint (f ! 1), uint (f ! 2))"
    by (simp add: slice_header unpack_BBB_eq min_def)
  have hdr': "length f < 3 \<Longrightarrow> unpack_BBB (slice_bytes f 0 3) = Inl struct_error"
    by (simp add: slice_header unpack_BBB_eq min_def)
  consider "length f < 3" | "length f = 3" | "4 \<le> length f" "length f < 6" | "6 \<le> length f"
    by linarith
  then show ?thesis
  proof cases
    case 1
    then show ?thesis by (simp add: hdr')
  next
    case 2
    then show ?thesis by (simp add: hdr sub')
  next
    case 3
    then show ?thesis by (simp add: hdr sub adv')
  next
    case 4
    then show ?thesis by (simp add: hdr sub adv rssi Let_def)
  qed
qed

lemmas run_defs = le_advertise_packet_handler_def decode_data_atc_def find_bytes_def preamble_def
  slice_from_def slice_bytes_def clip_def getitem_def from_bytes_def Let_def dlog_def vlog_def
  DEBUG_def VERBOSE_def unpack_BBB_def unpack_B_def unpack_b_def LE_META_EVENT_def
  EVT_LE_ADVERTISING_REPORT_def

section \<open>Claims about the radio session\<close>

text \<open>
  C8, as amended. The loop has no length check and no truncated-frame outcome. A frame
  of fewer than 3 bytes, a frame of 3 bytes with the meta-event code, and an advertising
  report of 4 or 5 bytes make \<open>struct.unpack\<close> raise \<open>struct.error\<close>, which leaves the
  loop. A frame of at least 3 bytes with another event code, and a meta event of at
  least 4 bytes with another sub-event, are dropped and the loop goes on to the next
  receive. An advertising report of 6 bytes or more is passed to the handler whatever
  its length.
\<close>

theorem short_frame_outcome:
  "(length f < 3 \<longrightarrow>
      receive_loop ba2str handler (Frame f # rest) h out = Some (struct_error, h, out))
   \<and> (3 \<le> length f \<and> uint (f ! 1) \<noteq> LE_META_EVENT \<longrightarrow>
      receive_loop ba2str handler (Frame f # rest) h out = receive_loop ba2str handler rest h out)
   \<and> (length f = 3 \<and> uint (f ! 1) = LE_META_EVENT \<longrightarrow>
      receive_loop ba2str handler (Frame f # rest) h out = Some (struct_error, h, out))
   \<and> (4 \<le> length f \<and> uint (f ! 1) = LE_META_EVENT \<and> uint (f ! 3) \<noteq> EVT_LE_ADVERTISING_REPORT \<longrightarrow>
      receive_loop ba2str handler (Frame f # rest) h out = receive_loop ba2str handler rest h out)
   \<and> (4 \<le> length f \<and> length f < 6 \<and> uint (f ! 1) = LE_META_EVENT
        \<and> uint (f ! 3) = EVT_LE_ADVERTISING_REPORT \<longrightarrow>
      receive_loop ba2str handler (Frame f # rest) h out = Some (struct_error, h, out))
   \<and> (6 \<le> length f \<and> uint (f ! 1) = LE_META_EVENT \<and> uint (f ! 3) = EVT_LE_ADVERTISING_REPORT
        \<and> handler h (ba2str (slice_bytes (slice_from f 4) 3 9)) (sint (f ! 5))
             (slice_bytes (slice_from f 4) 9 (-1)) (sint (last f)) = (None, h') \<longrightarrow>
      receive_loop ba2str handler (Frame f # rest) h out = receive_loop ba2str handler rest h' out)"
  unfolding frame_step by simp

theorem short_frame_outcome_witness:
  "receive_loop ba2str_hex (le_advertise_packet_handler 0 0) [Frame [], Interrupted]
      \<lparr>adv_counter = Map.empty, latest_measurement_time = Map.empty, stdout = []\<rparr> []
    = Some (struct_error, \<lparr>adv_counter = Map.empty, latest_measurement_time = Map.empty, stdout = []\<rparr>, [])
   \<and> receive_loop ba2str_hex (le_advertise_packet_handler 0 0) [Frame [0x04, 0x0E, 0x01], Interrupted]
      \<lparr>adv_counter = Map.empty, latest_measurement_time = Map.empty, stdout = []\<rparr> []
    = Some (KeyboardInterrupt, \<lparr>adv_counter = Map.empty, latest_measurement_time = Map.empty, stdout = []\<rparr>, [])
   \<and> receive_loop ba2str_hex (le_advertise_packet_handler 0 0) [Frame [0x04, 0x3E, 0x00], Interrupted]
      \<lparr>adv_counter = Map.empty, latest_measurement_time = Map.empty, stdout = []\<rparr> []
    = Some (struct_error, \<lparr>adv_counter = Map.empty, latest_measurement_time = Map.empty, stdout = []\<rparr>, [])
   \<and> receive_loop ba2str_hex (le_advertise_packet_handler 0 0) [Frame [0x04, 0x3E, 0x01, 0x01], Interrupted]
      \<lparr>adv_counter = Map.empty, latest_measurement_time = Map.empty, stdout = []\<rparr> []
    = Some (KeyboardInterrupt, \<lparr>adv_counter = Map.empty, latest_measurement_time = Map.empty, stdout = []\<rparr>, [])
   \<and> receive_loop ba2str_hex (le_advertise_packet_handler 0 0) [Frame [0x04, 0x3E, 0x02, 0x02, 0x01], Interrupted]
      \<lparr>adv_counter = Map.empty, latest_measurement_time = Map.empty, stdout = []\<rparr> []
    = Some (struct_error, \<lparr>adv_counter = Map.empty, latest_measurement_time = Map.empty, stdout = []\<rparr>, [])
   \<and> receive_loop ba2str_hex (le_advertise_packet_handler 0 0)
      [Frame [0x04, 0x3E, 0x04, 0x02, 0x01, 0x00, 0xC5], Interrupted]
      \<lparr>adv_counter = Map.empty, latest_measurement_time = Map.empty, stdout = []\<rparr> []
    = Some (KeyboardInterrupt, \<lparr>adv_counter = Map.empty, latest_measurement_time = Map.empty, stdout = []\<rparr>, [])"
proof -
  let ?S = "\<lparr>adv_counter = Map.empty, latest_measurement_time = Map.empty, stdout = []\<rparr>"
  let ?H = "le_advertise_packet_handler 0 0"
  let ?f = "[0x04, 0x3E, 0x04, 0x02, 0x01, 0x00, 0xC5] :: byte list"
  have tail: "receive_loop ba2str_hex ?H [Interrupted] ?S [] = Some (KeyboardInterrupt, ?S, [])"
    by simp
  have c1: "receive_loop ba2str_hex ?H [Frame [], Interrupted] ?S [] = Some (struct_error, ?S, [])"
    using short_frame_outcome[where f = "[]" and ba2str = ba2str_hex and handler = ?H
        and rest = "[Interrupted]" and h = ?S and out = "[]" and h' = ?S] by simp
  have c2: "receive_loop ba2str_hex ?H [Frame [0x04, 0x0E, 0x01], Interrupted] ?S []
      = receive_loop ba2str_hex ?H [Interrupted] ?S []"
    using short_frame_outcome[where f = "[0x04, 0x0E, 0x01]" and ba2str = ba2str_hex and handler = ?H
        and rest = "[Interrupted]" and h = ?S and out = "[]" and h' = ?S]
    by (simp add: LE_META_EVENT_def)
  have c3: "receive_loop ba2str_hex ?H [Frame [0x04, 0x3E, 0x00], Interrupted] ?S []
      = Some (struct_error, ?S, [])"
    using short_frame_outcome[where f = "[0x04, 0x3E, 0x00]" and ba2str = ba2str_hex and handler = ?H
        and rest = "[Interrupted]" and h = ?S and out = "[]" and h' = ?S]
    by (simp add: LE_META_EVENT_def)
  have c4: "receive_loop ba2str_hex ?H [Frame [0x04, 0x3E, 0x01, 0x01], Interrupted] ?S []
      = receive_loop ba2str_hex ?H [Interrupted] ?S []"
    using short_frame_outcome[where f = "[0x04, 0x3E, 0x01, 0x01]" and ba2str = ba2str_hex and handler = ?H
        and rest = "[Interrupted]" and h = ?S and out = "[]" and h' = ?S]
    by (simp add: LE_META_EVENT_def EVT_LE_ADVERTISING_REPORT_def)
  have c5: "receive_loop ba2str_hex ?H [Frame [0x04, 0x3E, 0x02, 0x02, 0x01], Interrupted] ?S []
      = Some (struct_error, ?S, [])"
    using short_frame_outcome[where f = "[0x04, 0x3E, 0x02, 0x02, 0x01]" and ba2str = ba2str_hex and handler = ?H
        and rest = "[Interrupted]" and h = ?S and out = "[]" and h' = ?S]
    by (simp add: LE_META_EVENT_def EVT_LE_ADVERTISING_REPORT_def)
  have call: "?H ?S (ba2str_hex (slice_bytes (slice_from ?f 4) 3 9)) (sint (?f ! 5))
      (slice_bytes (slice_from ?f 4) 9 (-1)) (sint (last ?f)) = (None, ?S)"
    by (simp add: run_defs)
  have c6: "receive_loop ba2str_hex ?H [Frame ?f, Interrupted] ?S []
      = receive_loop ba2str_hex ?H [Interrupted] ?S []"
    using short_frame_outcome[where f = ?f and ba2str = ba2str_hex and handler = ?H
        and rest = "[Interrupted]" and h = ?S and out = "[]" and h' = ?S] call
    by (simp add: LE_META_EVENT_def EVT_LE_ADVERTISING_REPORT_def)
  from c1 c2 c3 c4 c5 c6 tail show ?thesis by simp
qed

text \<open>
  C8 as stated fails: a two-byte frame is not dropped; the loop ends with
  \<open>struct.error\<close> and never reaches the receive that follows.
\<close>

theorem short_frame_counterexample:
  "receive_loop ba2str_hex (le_advertise_packet_handler 0 0) [Frame [0x04, 0x3E], Interrupted]
      \<lparr>adv_counter = Map.empty, latest_measurement_time = Map.empty, stdout = []\<rparr> []
    = Some (struct_error,
            \<lparr>adv_counter = Map.empty, latest_measurement_time = Map.empty, stdout = []\<rparr>, [])
   \<and> receive_loop ba2str_hex (le_advertise_packet_handler 0 0) [Interrupted]
      \<lparr>adv_counter = Map.empty, latest_measurement_time = Map.empty, stdout = []\<rparr> []
    = Some (KeyboardInterrupt,
            \<lparr>adv_counter = Map.empty, latest_measurement_time = Map.empty, stdout = []\<rparr>, [])"
  by (simp add: run_defs)

text \<open>
  C9, as amended. An exception of class \<open>Exception\<close> raised by the handler is caught
  and printed, and the loop goes on to the next receive. Whatever such exceptions the
  handler raises, the loop does not end as long as every receive delivers a frame of
  at least 6 bytes: it ends only on the interrupt, on a failure of the receive call, on
  a \<open>struct.error\<close> from a shorter frame, or on an exception of the handler that is
  not of class \<open>Exception\<close>.
\<close>

theorem handler_failure_isolated:
  "(6 \<le> length f \<and> uint (f ! 1) = LE_META_EVENT \<and> uint (f ! 3) = EVT_LE_ADVERTISING_REPORT
      \<and> handler h (ba2str (slice_bytes (slice_from f 4) 3 9)) (sint (f ! 5))
           (slice_bytes (slice_from f 4) 9 (-1)) (sint (last f)) = (Some e, h')
      \<and> is_Exception e \<longrightarrow>
      receive_loop ba2str handler (Frame f # rest) h out
        = receive_loop ba2str handler rest h' (out @ [Handler_exception e]))
   \<and> ((\<forall>r \<in> set incoming. \<exists>g. r = Frame g \<and> 6 \<le> length g)
      \<and> (\<forall>s mac t d r x s'. handler s mac t d r = (Some x, s') \<longrightarrow> is_Exception x) \<longrightarrow>
      receive_loop ba2str handler incoming h out = None)"
proof (rule conjI)
  show "6 \<le> length f \<and> uint (f ! 1) = LE_META_EVENT \<and> uint (f ! 3) = EVT_LE_ADVERTISING_REPORT
      \<and> handler h (ba2str (slice_bytes (slice_from f 4) 3 9)) (sint (f ! 5))
           (slice_bytes (slice_from f 4) 9 (-1)) (sint (last f)) = (Some e, h')
      \<and> is_Exception e \<longrightarrow>
      receive_loop ba2str handler (Frame f # rest) h out
        = receive_loop ba2str handler rest h' (out @ [Handler_exception e])"
    unfolding frame_step by simp
next
  show "(\<forall>r \<in> set incoming. \<exists>g. r = Frame g \<and> 6 \<le> length g)
      \<and> (\<forall>s mac t d r x s'. handler s mac t d r = (Some x, s') \<longrightarrow> is_Exception x) \<longrightarrow>
      receive_loop ba2str handler incoming h out = None"
  proof (induction incoming arbitrary: h out)
    case Nil
    show ?case by simp
  next
    case (Cons r incoming)
    show ?case
    proof (rule impI)
      assume a: "(\<forall>r \<in> set (r # incoming). \<exists>g. r = Frame g \<and> 6 \<le> length g)
          \<and> (\<forall>s mac t d r x s'. handler s mac t d r = (Some x, s') \<longrightarrow> is_Exception x)"
      then obtain g where g: "r = Frame g" "6 \<le> length g" by auto
      from a have tl: "(\<forall>r \<in> set incoming. \<exists>g. r = Frame g \<and> 6 \<le> length g)
          \<and> (\<forall>s mac t d r x s'. handler s mac t d r = (Some x, s') \<longrightarrow> is_Exception x)"
        by simp
      have rest: "\<And>h out. receive_loop ba2str handler incoming h out = None"
        using Cons.IH tl by blast
      from a have exc: "\<And>s mac t d r x s'. handler s mac t d r = (Some x, s') \<Longrightarrow> is_Exception x"
        by blast
      show "receive_loop ba2str handler (r # incoming) h out = None"
        unfolding g(1) frame_step using g(2) rest exc
        by (auto split: prod.splits option.splits)
    qed
  qed
qed

theorem handler_failure_isolated_witness:
  "receive_loop ba2str_hex (\<lambda>s mac t d r. (Some RuntimeError, Suc s))
      [Frame [0x04, 0x3E, 0x04, 0x02, 0x01, 0x00, 0xC5], Interrupted] (0 :: nat) []
    = Some (KeyboardInterrupt, 1, [Handler_exception RuntimeError])
   \<and> receive_loop ba2str_hex (\<lambda>s mac t d r. (Some RuntimeError, Suc s))
      [Frame [0x04, 0x3E, 0x04, 0x02, 0x01, 0x00, 0xC5], Frame [0x04, 0x3E, 0x04, 0x02, 0x01, 0x00, 0xC5]]
      (0 :: nat) []
    = None"
proof -
  let ?H = "(\<lambda>s mac t d r. (Some RuntimeError, Suc s)) :: nat handler"
  let ?f = "[0x04, 0x3E, 0x04, 0x02, 0x01, 0x00, 0xC5] :: byte list"
  have h1: "6 \<le> length ?f \<and> uint (?f ! 1) = LE_META_EVENT \<and> uint (?f ! 3) = EVT_LE_ADVERTISING_REPORT
      \<and> ?H 0 (ba2str_hex (slice_bytes (slice_from ?f 4) 3 9)) (sint (?f ! 5))
           (slice_bytes (slice_from ?f 4) 9 (-1)) (sint (last ?f)) = (Some RuntimeError, 1)
      \<and> is_Exception RuntimeError"
    by (simp add: LE_META_EVENT_def EVT_LE_ADVERTISING_REPORT_def)
  have h2: "(\<forall>r \<in> set [Frame ?f, Frame ?f]. \<exists>g. r = Frame g \<and> 6 \<le> length g)
      \<and> (\<forall>s mac t d r x s'. ?H s mac t d r = (Some x, s') \<longrightarrow> is_Exception x)"
    by auto
  have c1: "receive_loop ba2str_hex ?H [Frame ?f, Interrupted] 0 []
      = receive_loop ba2str_hex ?H [Interrupted] 1 ([] @ [Handler_exception RuntimeError])"
    using handler_failure_isolated[where f = ?f and ba2str = ba2str_hex and handler = ?H
        and rest = "[Interrupted]" and h = 0 and out = "[]" and h' = 1 and e = RuntimeError
        and incoming = "[]"] h1
    by blast
  have c2: "receive_loop ba2str_hex ?H [Frame ?f, Frame ?f] 0 [] = None"
    using handler_failure_isolated[where f = ?f and ba2str = ba2str_hex and handler = ?H
        and rest = "[]" and h = 0 and out = "[]" and h' = 0 and e = RuntimeError
        and incoming = "[Frame ?f, Frame ?f]"] h2
    by blast
  from c1 c2 show ?thesis by simp
qed

text \<open>
  C9 as stated fails: with no interrupt and no failure of the receive call, a
  three-byte meta event ends the loop with \<open>struct.error\<close>.
\<close>

theorem handler_failure_counterexample:
  "receive_loop ba2str_hex (le_advertise_packet_handler 0 0) [Frame [0x04, 0x3E, 0x01]]
      \<lparr>adv_counter = Map.empty, latest_measurement_time = Map.empty, stdout = []\<rparr> []
    = Some (struct_error,
            \<lparr>adv_counter = Map.empty, latest_measurement_time = Map.empty, stdout = []\<rparr>, [])"
  by (simp add: run_defs)

text \<open>
  C4, as amended. The filter found on the handle is read before the loop's own filter
  is installed. When the loop ends with \<open>KeyboardInterrupt\<close>, the saved filter is set
  again before the interrupt is raised further; if that call fails, a line is printed
  and the loop's filter stays. When the loop ends with any other exception (a failure
  of the receive call, a \<open>struct.error\<close>), the loop's filter stays on the handle.
\<close>

theorem filter_restored_on_interrupt_only:
  "(faults sock = [] \<and> receive_loop ba2str handler incoming h (printed sock) = Some (e, h', out) \<longrightarrow>
      parse_le_advertising_events ba2str new_filter incoming sock handler h
        = Some (e, sock\<lparr>hci_filter := (if e = KeyboardInterrupt then hci_filter sock else new_filter),
                        printed := out\<rparr>, h'))
   \<and> (faults sock = [False, False, True]
      \<and> receive_loop ba2str handler incoming h (printed sock) = Some (KeyboardInterrupt, h', out) \<longrightarrow>
      parse_le_advertising_events ba2str new_filter incoming sock handler h
        = Some (KeyboardInterrupt,
                sock\<lparr>hci_filter := new_filter, faults := [],
                     printed := out @ [Failed_setting_filter (hci_filter sock)]\<rparr>, h'))"
  by (simp add: parse_le_advertising_events_def getsockopt_def setsockopt_def next_fault_def)

theorem filter_restored_on_interrupt_only_witness:
  "parse_le_advertising_events ba2str_hex
      [0x10, 0x00, 0x00, 0x00, 0x00, 0x00, 0x00, 0x00, 0x00, 0x00, 0x00, 0x40, 0x00, 0x00]
      [Frame [0x04, 0x0E, 0x01], Interrupted]
      \<lparr>hci_filter = [0xFF, 0xFF, 0xFF, 0xFF, 0xFF, 0xFF, 0xFF, 0xFF, 0xFF, 0xFF, 0xFF, 0xFF, 0x00, 0x00],
         faults = [], sent = [], printed = []\<rparr>
      (le_advertise_packet_handler 0 0)
      \<lparr>adv_counter = Map.empty, latest_measurement_time = Map.empty, stdout = []\<rparr>
    = Some (KeyboardInterrupt,
            \<lparr>hci_filter = [0xFF, 0xFF, 0xFF, 0xFF, 0xFF, 0xFF, 0xFF, 0xFF, 0xFF, 0xFF, 0xFF, 0xFF, 0x00, 0x00],
               faults = [], sent = [], printed = []\<rparr>,
            \<lparr>adv_counter = Map.empty, latest_measurement_time = Map.empty, stdout = []\<rparr>)
   \<and> parse_le_advertising_events ba2str_hex
      [0x10, 0x00, 0x00, 0x00, 0x00, 0x00, 0x00, 0x00, 0x00, 0x00, 0x00, 0x40, 0x00, 0x00]
      [Frame [0x04, 0x3E], Interrupted]
      \<lparr>hci_filter = [0xFF, 0xFF, 0xFF, 0xFF, 0xFF, 0xFF, 0xFF, 0xFF, 0xFF, 0xFF, 0xFF, 0xFF, 0x00, 0x00],
         faults = [], sent = [], printed = []\<rparr>
      (le_advertise_packet_handler 0 0)
      \<lparr>adv_counter = Map.empty, latest_measurement_time = Map.empty, stdout = []\<rparr>
    = Some (struct_error,
            \<lparr>hci_filter = [0x10, 0x00, 0x00, 0x00, 0x00, 0x00, 0x00, 0x00, 0x00, 0x00, 0x00, 0x40, 0x00, 0x00],
               faults = [], sent = [], printed = []\<rparr>,
            \<lparr>adv_counter = Map.empty, latest_measurement_time = Map.empty, stdout = []\<rparr>)
   \<and> parse_le_advertising_events ba2str_hex
      [0x10, 0x00, 0x00, 0x00, 0x00, 0x00, 0x00, 0x00, 0x00, 0x00, 0x00, 0x40, 0x00, 0x00]
      [Interrupted]
      \<lparr>hci_filter = [0xFF, 0xFF, 0xFF, 0xFF, 0xFF, 0xFF, 0xFF, 0xFF, 0xFF, 0xFF, 0xFF, 0xFF, 0x00, 0x00],
         faults = [False, False, True], sent = [], printed = []\<rparr>
      (le_advertise_packet_handler 0 0)
      \<lparr>adv_counter = Map.empty, latest_measurement_time = Map.empty, stdout = []\<rparr>
    = Some (KeyboardInterrupt,
            \<lparr>hci_filter = [0x10, 0x00, 0x00, 0x00, 0x00, 0x00, 0x00, 0x00, 0x00, 0x00, 0x00, 0x40, 0x00, 0x00],
               faults = [], sent = [],
               printed = [Failed_setting_filter
                 [0xFF, 0xFF, 0xFF, 0xFF, 0xFF, 0xFF, 0xFF, 0xFF, 0xFF, 0xFF, 0xFF, 0xFF, 0x00, 0x00]]\<rparr>,
            \<lparr>adv_counter = Map.empty, latest_measurement_time = Map.empty, stdout = []\<rparr>)"
proof -
  let ?S = "\<lparr>adv_counter = Map.empty, latest_measurement_time = Map.empty, stdout = []\<rparr>"
  let ?H = "le_advertise_packet_handler 0 0"
  let ?new = "[0x10, 0x00, 0x00, 0x00, 0x00, 0x00, 0x00, 0x00, 0x00, 0x00, 0x00, 0x40, 0x00, 0x00] :: byte list"
  let ?old = "[0xFF, 0xFF, 0xFF, 0xFF, 0xFF, 0xFF, 0xFF, 0xFF, 0xFF, 0xFF, 0xFF, 0xFF, 0x00, 0x00] :: byte list"
  let ?sock = "\<lparr>hci_filter = ?old, faults = [], sent = [], printed = []\<rparr>"
  let ?bad = "\<lparr>hci_filter = ?old, faults = [False, False, True], sent = [], printed = []\<rparr>"
  have h1: "faults ?sock = []
      \<and> receive_loop ba2str_hex ?H [Frame [0x04, 0x0E, 0x01], Interrupted] ?S (printed ?sock)
          = Some (KeyboardInterrupt, ?S, [])"
    by (simp add: run_defs)
  have h2: "faults ?sock = []
      \<and> receive_loop ba2str_hex ?H [Frame [0x04, 0x3E], Interrupted] ?S (printed ?sock)
          = Some (struct_error, ?S, [])"
    by (simp add: run_defs)
  have h3: "faults ?bad = [False, False, True]
      \<and> receive_loop ba2str_hex ?H [Interrupted] ?S (printed ?bad) = Some (KeyboardInterrupt, ?S, [])"
    by simp
  have c1: "parse_le_advertising_events ba2str_hex ?new [Frame [0x04, 0x0E, 0x01], Interrupted] ?sock ?H ?S
      = Some (KeyboardInterrupt,
              ?sock\<lparr>hci_filter := (if KeyboardInterrupt = KeyboardInterrupt then hci_filter ?sock else ?new),
                     printed := []\<rparr>, ?S)"
    using filter_restored_on_interrupt_only[THEN conjunct1, rule_format, OF h1] .
  have c2: "parse_le_advertising_events ba2str_hex ?new [Frame [0x04, 0x3E], Interrupted] ?sock ?H ?S
      = Some (struct_error,
              ?sock\<lparr>hci_filter := (if struct_error = KeyboardInterrupt then hci_filter ?sock else ?new),
                     printed := []\<rparr>, ?S)"
    using filter_restored_on_interrupt_only[THEN conjunct1, rule_format, OF h2] .
  have c3: "parse_le_advertising_events ba2str_hex ?new [Interrupted] ?bad ?H ?S
      = Some (KeyboardInterrupt,
              ?bad\<lparr>hci_filter := ?new, faults := [],
                    printed := [] @ [Failed_setting_filter (hci_filter ?bad)]\<rparr>, ?S)"
    using filter_restored_on_interrupt_only[THEN conjunct2, rule_format, OF h3] .
  from c1 c2 c3 show ?thesis by simp
qed

text \<open>
  C4 as stated fails: after a failure of the receive call the handle keeps the loop's
  filter, not the one saved.
\<close>

theorem filter_not_restored_counterexample:
  "parse_le_advertising_events ba2str_hex
      [0x10, 0x00, 0x00, 0x00, 0x00, 0x00, 0x00, 0x00, 0x00, 0x00, 0x00, 0x40, 0x00, 0x00]
      [Failed]
      \<lparr>hci_filter = [0xFF, 0xFF, 0xFF, 0xFF, 0xFF, 0xFF, 0xFF, 0xFF, 0xFF, 0xFF, 0xFF, 0xFF, 0x00, 0x00],
         faults = [], sent = [], printed = []\<rparr>
      (le_advertise_packet_handler 0 0)
      \<lparr>adv_counter = Map.empty, latest_measurement_time = Map.empty, stdout = []\<rparr>
    = Some (OSError,
            \<lparr>hci_filter = [0x10, 0x00, 0x00, 0x00, 0x00, 0x00, 0x00, 0x00, 0x00, 0x00, 0x00, 0x40, 0x00, 0x00],
               faults = [], sent = [], printed = []\<rparr>,
            \<lparr>adv_counter = Map.empty, latest_measurement_time = Map.empty, stdout = []\<rparr>)"
  by (simp add: parse_le_advertising_events_def getsockopt_def setsockopt_def next_fault_def)

text \<open>
  C5, as amended. When the receive loop raises \<open>KeyboardInterrupt\<close>, the session sends
  the command that disables scanning and then returns normally: the interrupt is not
  raised to the caller.
\<close>

theorem interrupt_swallowed_after_scan_disable:
  "device_enable ioctl_errno = None
   \<and> parse_le_advertising_events ba2str new_filter incoming (le_scan_enable sock) handler h
        = Some (KeyboardInterrupt, sock', h') \<longrightarrow>
     handle_le_advertising_events ba2str new_filter ioctl_errno (Inr sock) incoming handler h
        = Some (Inr (), Some (le_scan_disable sock'), h')
   \<and> sent (le_scan_disable sock')
        = sent sock' @ [(OGF_LE_CTL, OCF_LE_SET_SCAN_ENABLE, [SCAN_DISABLE, 0x00])]"
  by (simp add: handle_le_advertising_events_def le_scan_disable_def hci_send_cmd_def Let_def)

theorem interrupt_swallowed_after_scan_disable_witness:
  "handle_le_advertising_events ba2str_hex
      [0x10, 0x00, 0x00, 0x00, 0x00, 0x00, 0x00, 0x00, 0x00, 0x00, 0x00, 0x40, 0x00, 0x00]
      None
      (Inr \<lparr>hci_filter = [0xFF, 0xFF, 0xFF, 0xFF, 0xFF, 0xFF, 0xFF, 0xFF, 0xFF, 0xFF, 0xFF, 0xFF, 0x00, 0x00],
            faults = [], sent = [], printed = []\<rparr>)
      [Interrupted]
      (le_advertise_packet_handler 0 0)
      \<lparr>adv_counter = Map.empty, latest_measurement_time = Map.empty, stdout = []\<rparr>
    = Some (Inr (),
            Some \<lparr>hci_filter = [0xFF, 0xFF, 0xFF, 0xFF, 0xFF, 0xFF, 0xFF, 0xFF, 0xFF, 0xFF, 0xFF, 0xFF, 0x00, 0x00],
                   faults = [],
                   sent = [(8, 11, [0x00, 0x00, 0x08, 0x00, 0x08, 0x00, 0x00]),
                           (8, 12, [0x01, 0x00]),
                           (8, 12, [0x00, 0x00])],
                   printed = []\<rparr>,
            \<lparr>adv_counter = Map.empty, latest_measurement_time = Map.empty, stdout = []\<rparr>)"
proof -
  let ?S = "\<lparr>adv_counter = Map.empty, latest_measurement_time = Map.empty, stdout = []\<rparr>"
  let ?H = "le_advertise_packet_handler 0 0"
  let ?new = "[0x10, 0x00, 0x00, 0x00, 0x00, 0x00, 0x00, 0x00, 0x00, 0x00, 0x00, 0x40, 0x00, 0x00] :: byte list"
  let ?old = "[0xFF, 0xFF, 0xFF, 0xFF, 0xFF, 0xFF, 0xFF, 0xFF, 0xFF, 0xFF, 0xFF, 0xFF, 0x00, 0x00] :: byte list"
  let ?sock = "\<lparr>hci_filter = ?old, faults = [], sent = [], printed = []\<rparr>"
  have h: "device_enable None = None
      \<and> parse_le_advertising_events ba2str_hex ?new [Interrupted] (le_scan_enable ?sock) ?H ?S
          = Some (KeyboardInterrupt, le_scan_enable ?sock, ?S)"
    by (simp add: device_enable_def toggle_device_def parse_le_advertising_events_def
        getsockopt_def setsockopt_def next_fault_def le_scan_enable_def hci_send_cmd_def)
  have c: "handle_le_advertising_events ba2str_hex ?new None (Inr ?sock) [Interrupted] ?H ?S
      = Some (Inr (), Some (le_scan_disable (le_scan_enable ?sock)), ?S)
    \<and> sent (le_scan_disable (le_scan_enable ?sock))
      = sent (le_scan_enable ?sock) @ [(OGF_LE_CTL, OCF_LE_SET_SCAN_ENABLE, [SCAN_DISABLE, 0x00])]"
    using interrupt_swallowed_after_scan_disable[rule_format, OF h] .
  then show ?thesis
    by (simp add: le_scan_enable_def le_scan_disable_def hci_send_cmd_def pack_H_def
        OGF_LE_CTL_def OCF_LE_SET_SCAN_PARAMETERS_def OCF_LE_SET_SCAN_ENABLE_def
        SCAN_TYPE_PASSIVE_def LE_PUBLIC_ADDRESS_def FILTER_POLICY_NO_WHITELIST_def
        SCAN_ENABLE_def SCAN_DISABLE_def SCAN_FILTER_DUPLICATES_def)
qed

text \<open>
  C5 as stated fails: on the interrupt the session entry point returns \<open>None\<close>; its
  result is not the exception.
\<close>

theorem interrupt_swallowed_counterexample:
  "handle_le_advertising_events ba2str_hex
      [0x10, 0x00, 0x00, 0x00, 0x00, 0x00, 0x00, 0x00, 0x00, 0x00, 0x00, 0x40, 0x00, 0x00]
      (Some 114)
      (Inr \<lparr>hci_filter = [0xFF, 0xFF, 0xFF, 0xFF, 0xFF, 0xFF, 0xFF, 0xFF, 0xFF, 0xFF, 0xFF, 0xFF, 0x00, 0x00],
            faults = [], sent = [], printed = []\<rparr>)
      [Frame [0x04, 0x0E, 0x01], Interrupted]
      (le_advertise_packet_handler 0 0)
      \<lparr>adv_counter = Map.empty, latest_measurement_time = Map.empty, stdout = []\<rparr>
    = Some (Inr (),
            Some \<lparr>hci_filter = [0xFF, 0xFF, 0xFF, 0xFF, 0xFF, 0xFF, 0xFF, 0xFF, 0xFF, 0xFF, 0xFF, 0xFF, 0x00, 0x00],
                   faults = [],
                   sent = [(8, 11, [0x00, 0x00, 0x08, 0x00, 0x08, 0x00, 0x00]),
                           (8, 12, [0x01, 0x00]),
                           (8, 12, [0x00, 0x00])],
                   printed = []\<rparr>,
            \<lparr>adv_counter = Map.empty, latest_measurement_time = Map.empty, stdout = []\<rparr>)"
  by (simp add: handle_le_advertising_events_def device_enable_def toggle_device_def EALREADY_def
      le_scan_enable_def le_scan_disable_def hci_send_cmd_def pack_H_def
      parse_le_advertising_events_def getsockopt_def setsockopt_def next_fault_def
      OGF_LE_CTL_def OCF_LE_SET_SCAN_PARAMETERS_def OCF_LE_SET_SCAN_ENABLE_def
      SCAN_TYPE_PASSIVE_def LE_PUBLIC_ADDRESS_def FILTER_POLICY_NO_WHITELIST_def
      SCAN_ENABLE_def SCAN_DISABLE_def SCAN_FILTER_DUPLICATES_def run_defs)

end
